theory Spec2Isabelle
  imports Complex_Main "HOL-Library.Sublist"
begin

section \<open>Game constants (game\_specs.py)\<close>

text \<open>
  Coordinates are the numbers the turtle library stores; they are modelled as
  \<^typ>\<open>real\<close>. Python's unbounded integers (lives, score, hit points, timer ids) are
  \<^typ>\<open>int\<close>.
\<close>

definition SCREEN_width :: real where
  "SCREEN_width = 960"

definition SCREEN_height :: real where
  "SCREEN_height = 1024"

definition WALLS_left :: real where
  "WALLS_left = SCREEN_width / 2 * - 1"

definition WALLS_right :: real where
  "WALLS_right = SCREEN_width / 2"

definition WALLS_top :: real where
  "WALLS_top = SCREEN_height / 2"

definition WALLS_bottom :: real where
  "WALLS_bottom = SCREEN_height / 2 * - 1"

definition LASER_VELOCITY :: real where
  "LASER_VELOCITY = 10"

definition MAX_ENEMY_LASERS :: nat where
  "MAX_ENEMY_LASERS = 1"

definition LIVES :: int where
  "LIVES = 3"

definition MAX_LIVES :: int where
  "MAX_LIVES = 5"

definition BONUS_LIFE_THRESHOLD :: int where
  "BONUS_LIFE_THRESHOLD = 2000"

definition POINTS_PER_ENEMY :: int where
  "POINTS_PER_ENEMY = 20"

definition BOSS_BONUS_POINTS :: int where
  "BOSS_BONUS_POINTS = 300"

lemmas game_specs_defs =
  SCREEN_width_def SCREEN_height_def WALLS_left_def WALLS_right_def WALLS_top_def
  WALLS_bottom_def LASER_VELOCITY_def MAX_ENEMY_LASERS_def LIVES_def MAX_LIVES_def
  BONUS_LIFE_THRESHOLD_def POINTS_PER_ENEMY_def BOSS_BONUS_POINTS_def

section \<open>Turtle objects\<close>

text \<open>
  Every game entity is a \<open>Turtle\<close>: an object with a position and a visibility flag.
  Python compares and hashes these objects by identity, so the model gives each object
  an identity \<open>oid\<close>; membership of an object in a Python set or list is membership of
  its \<open>oid\<close>.
\<close>

record turtle =
  oid :: nat
  xcor :: real
  ycor :: real
  shown :: bool

text \<open>\<open>Turtle.distance\<close>: the Euclidean distance between the two positions.\<close>

definition distance :: "'a turtle_scheme \<Rightarrow> 'b turtle_scheme \<Rightarrow> real" where
  "distance a b = sqrt ((xcor b - xcor a)\<^sup>2 + (ycor b - ycor a)\<^sup>2)"

text \<open>\<open>Laser\<close> and \<open>EnemyLaser\<close> add the \<open>active\<close> flag to a turtle.\<close>

record laser = turtle +
  active :: bool

definition Laser :: "nat \<Rightarrow> real \<times> real \<Rightarrow> laser" where
  "Laser i position =
     \<lparr>oid = i, xcor = fst position, ycor = snd position, shown = True, active = True\<rparr>"

definition EnemyLaser :: "nat \<Rightarrow> real \<times> real \<Rightarrow> laser" where
  "EnemyLaser i position =
     \<lparr>oid = i, xcor = fst position, ycor = snd position, shown = True, active = True\<rparr>"

text \<open>\<open>Laser.move\<close>: one step upwards; past the top wall the laser is deactivated.\<close>

definition laser_move :: "laser \<Rightarrow> laser" where
  "laser_move l =
     (if active l then
        (let l1 = l\<lparr>ycor := ycor l + LASER_VELOCITY\<rparr>
         in if ycor l1 > WALLS_top then l1\<lparr>active := False, shown := False\<rparr> else l1)
      else l)"

text \<open>\<open>EnemyLaser.move\<close>: one step downwards; past the bottom wall it is deactivated.\<close>

definition enemy_laser_move :: "laser \<Rightarrow> laser" where
  "enemy_laser_move l =
     (if active l then
        (let l1 = l\<lparr>ycor := ycor l - LASER_VELOCITY\<rparr>
         in if ycor l1 < WALLS_bottom then l1\<lparr>active := False, shown := False\<rparr> else l1)
      else l)"

section \<open>Shield blocks (shield\_blocks.py)\<close>

record shield_block = turtle +
  block_active :: bool
  hp :: int
  color :: string

definition ShieldBlock :: "nat \<Rightarrow> real \<times> real \<Rightarrow> shield_block" where
  "ShieldBlock i position =
     \<lparr>oid = i, xcor = fst position, ycor = snd position, shown = True,
      block_active = True, hp = 3, color = ''green''\<rparr>"

text \<open>
  \<open>ShieldBlock.take_damage\<close>. The white particle of \<open>show_damage_effect\<close> is a separate
  turtle that only exists on the screen and is left out.
\<close>

definition take_damage :: "shield_block \<Rightarrow> shield_block" where
  "take_damage b =
     (let b1 = b\<lparr>hp := hp b - 1\<rparr>
      in if hp b1 = 2 then b1\<lparr>color := ''yellow''\<rparr>
         else if hp b1 = 1 then b1\<lparr>color := ''red''\<rparr>
         else if hp b1 \<le> 0 then b1\<lparr>block_active := False, shown := False\<rparr>
         else b1)"

text \<open>
  Both collision passes of \<open>ShieldGenerator\<close> call \<open>take_damage\<close> behind the guard
  \<open>block.active and ...\<close>: a hit is resolved on an active block only.
\<close>

definition resolved_hit :: "shield_block \<Rightarrow> shield_block" where
  "resolved_hit b = (if block_active b then take_damage b else b)"

text \<open>The colour a block shows at each number of hit points.\<close>

definition color_of_hp :: "int \<Rightarrow> string" where
  "color_of_hp h = (if h = 3 then ''green'' else if h = 2 then ''yellow'' else ''red'')"

text \<open>The block after \<open>n\<close> resolved hits, written out.\<close>

definition block_after :: "nat \<Rightarrow> nat \<Rightarrow> real \<times> real \<Rightarrow> shield_block" where
  "block_after n i position =
     (if n = 0 then ShieldBlock i position
      else if n = 1 then (ShieldBlock i position)\<lparr>hp := 2, color := ''yellow''\<rparr>
      else if n = 2 then (ShieldBlock i position)\<lparr>hp := 1, color := ''red''\<rparr>
      else (ShieldBlock i position)
             \<lparr>shown := False, block_active := False, hp := 0, color := ''red''\<rparr>)"

definition BLOCK_SIZE :: real where
  "BLOCK_SIZE = 25"

text \<open>
  \<open>ShieldGenerator.check_collision\<close>. The inner loop runs one laser over every block, in
  list order; whenever the block is active and nearer than 15 units the block takes damage
  and the laser is deactivated and hidden. The loop has no \<open>break\<close> and does not read
  \<open>laser.active\<close>.
\<close>

fun collide_blocks :: "laser \<Rightarrow> shield_block list \<Rightarrow> laser \<times> shield_block list" where
  "collide_blocks l [] = (l, [])"
| "collide_blocks l (b # bs) =
     (if block_active b \<and> distance l b < 15 then
        (let (l', bs') = collide_blocks (l\<lparr>active := False, shown := False\<rparr>) bs
         in (l', take_damage b # bs'))
      else
        (let (l', bs') = collide_blocks l bs in (l', b # bs')))"

text \<open>The outer loop: every laser of the list, in list order, whatever its \<open>active\<close> flag.\<close>

fun check_collision :: "shield_block list \<Rightarrow> laser list \<Rightarrow> shield_block list \<times> laser list" where
  "check_collision bs [] = (bs, [])"
| "check_collision bs (l # ls) =
     (let (l', bs') = collide_blocks l bs;
          (bs'', ls') = check_collision bs' ls
      in (bs'', l' # ls'))"

text \<open>\<open>ShieldGenerator.check_collision_with_aliens\<close>: the blocks are damaged, the aliens are not.\<close>

fun check_collision_with_aliens :: "shield_block list \<Rightarrow> turtle list \<Rightarrow> shield_block list" where
  "check_collision_with_aliens bs [] = bs"
| "check_collision_with_aliens bs (alien # rest) =
     check_collision_with_aliens
       (map (\<lambda>b. if block_active b \<and> distance b alien < BLOCK_SIZE then take_damage b else b) bs)
       rest"

section \<open>The collision engine (check\_hit.py)\<close>

text \<open>
  \<open>CheckHit.check_lasers_vs_targets\<close>. The inner loop looks for the first target that is
  not in \<open>hit_targets\<close> and is nearer than \<open>threshold\<close>; \<open>None\<close> is the loop running to
  its end without \<open>break\<close>.
\<close>

fun scan_targets ::
  "laser \<Rightarrow> 'a turtle_scheme list \<Rightarrow> nat set \<Rightarrow> real \<Rightarrow> 'a turtle_scheme option" where
  "scan_targets l [] hit_targets threshold = None"
| "scan_targets l (t # ts) hit_targets threshold =
     (if oid t \<in> hit_targets then scan_targets l ts hit_targets threshold
      else if distance t l < threshold then Some t
      else scan_targets l ts hit_targets threshold)"

fun lasers_vs_targets_loop ::
  "laser list \<Rightarrow> 'a turtle_scheme list \<Rightarrow> real \<Rightarrow> (laser \<times> 'a turtle_scheme) list \<Rightarrow> nat set
     \<Rightarrow> (laser \<times> 'a turtle_scheme) list" where
  "lasers_vs_targets_loop [] targets threshold hits hit_targets = hits"
| "lasers_vs_targets_loop (l # ls) targets threshold hits hit_targets =
     (if \<not> active l then lasers_vs_targets_loop ls targets threshold hits hit_targets
      else
        (case scan_targets l targets hit_targets threshold of
           None \<Rightarrow> lasers_vs_targets_loop ls targets threshold hits hit_targets
         | Some t \<Rightarrow>
             lasers_vs_targets_loop ls targets threshold (hits @ [(l, t)])
               (insert (oid t) hit_targets)))"

definition check_lasers_vs_targets ::
  "laser list \<Rightarrow> 'a turtle_scheme list \<Rightarrow> real \<Rightarrow> (laser \<times> 'a turtle_scheme) list" where
  "check_lasers_vs_targets ls targets threshold =
     lasers_vs_targets_loop ls targets threshold [] {}"

text \<open>
  \<open>CheckHit.check_laser_vs_laser\<close>. The inner loop skips inactive enemy lasers and stops
  at the first active one nearer than 10 units. There is no set of enemy lasers already
  hit.
\<close>

fun scan_enemy_lasers :: "laser \<Rightarrow> laser list \<Rightarrow> laser option" where
  "scan_enemy_lasers p_laser [] = None"
| "scan_enemy_lasers p_laser (e_laser # es) =
     (if \<not> active e_laser then scan_enemy_lasers p_laser es
      else if distance p_laser e_laser < 10 then Some e_laser
      else scan_enemy_lasers p_laser es)"

fun laser_vs_laser_loop ::
  "laser list \<Rightarrow> laser list \<Rightarrow> (laser \<times> laser) list \<Rightarrow> (laser \<times> laser) list" where
  "laser_vs_laser_loop [] enemy hits = hits"
| "laser_vs_laser_loop (p_laser # ps) enemy hits =
     (if \<not> active p_laser then laser_vs_laser_loop ps enemy hits
      else
        (case scan_enemy_lasers p_laser enemy of
           None \<Rightarrow> laser_vs_laser_loop ps enemy hits
         | Some e_laser \<Rightarrow> laser_vs_laser_loop ps enemy (hits @ [(p_laser, e_laser)])))"

definition check_laser_vs_laser :: "laser list \<Rightarrow> laser list \<Rightarrow> (laser \<times> laser) list" where
  "check_laser_vs_laser player_lasers enemy = laser_vs_laser_loop player_lasers enemy []"

section \<open>The player's ship (space\_ship.py)\<close>

text \<open>The fields of \<open>SpaceShip\<close> that the modelled methods read or write.\<close>

record space_ship = turtle +
  ship_width :: real
  ship_height :: real
  lasers :: "laser list"
  lives :: int
  score :: int
  points_since_last_life :: int
  last_shot_time :: real
  shot_cooldown :: real

definition SpaceShip :: "nat \<Rightarrow> real \<times> real \<Rightarrow> space_ship" where
  "SpaceShip i position =
     \<lparr>oid = i, xcor = fst position, ycor = snd position, shown = True,
      ship_width = SCREEN_width * (12 / 100), ship_height = SCREEN_height * (15 / 1000),
      lasers = [], lives = LIVES, score = 0, points_since_last_life = 0,
      last_shot_time = 0, shot_cooldown = 3 / 2\<rparr>"

definition go_right :: "space_ship \<Rightarrow> space_ship" where
  "go_right s =
     (let new_x = xcor s + 20
      in if new_x \<le> WALLS_right - ship_width s / 2 then s\<lparr>xcor := new_x\<rparr> else s)"

definition go_left :: "space_ship \<Rightarrow> space_ship" where
  "go_left s =
     (let new_x = xcor s - 20
      in if new_x \<ge> WALLS_left + ship_width s / 2 then s\<lparr>xcor := new_x\<rparr> else s)"

text \<open>A key-driven run of the ship: the calls of \<open>go_right\<close> and \<open>go_left\<close>, in order.\<close>

datatype ship_move = Go_right | Go_left

fun ship_step :: "ship_move \<Rightarrow> space_ship \<Rightarrow> space_ship" where
  "ship_step Go_right s = go_right s"
| "ship_step Go_left s = go_left s"

fun ship_run :: "ship_move list \<Rightarrow> space_ship \<Rightarrow> space_ship" where
  "ship_run [] s = s"
| "ship_run (m # ms) s = ship_run ms (ship_step m s)"

definition within_walls :: "space_ship \<Rightarrow> bool" where
  "within_walls s \<longleftrightarrow>
     WALLS_left + ship_width s / 2 \<le> xcor s \<and> xcor s \<le> WALLS_right - ship_width s / 2"

text \<open>
  \<open>SpaceShip.fire\<close>. \<open>current_time\<close> is the value \<open>time()\<close> returns and \<open>new_oid\<close> the
  identity of the \<open>Laser\<close> object the call creates. The sound is left out.
\<close>

definition fire :: "real \<Rightarrow> nat \<Rightarrow> space_ship \<Rightarrow> space_ship" where
  "fire current_time new_oid s =
     (if \<not> list_ex active (lasers s) \<or> current_time - last_shot_time s \<ge> shot_cooldown s then
        s\<lparr>last_shot_time := current_time,
          lasers := lasers s @ [Laser new_oid (xcor s, ycor s + ship_height s / 2 + 20)]\<rparr>
      else s)"

text \<open>\<open>SpaceShip.update_lasers\<close>: move every laser, then keep the active ones.\<close>

definition update_lasers :: "space_ship \<Rightarrow> space_ship" where
  "update_lasers s = s\<lparr>lasers := filter active (map laser_move (lasers s))\<rparr>"

section \<open>Score and bonus lives (window.py)\<close>

text \<open>
  \<open>ScreenGame.update_active_player_score\<close>, on the active ship. The scoreboard and the
  bonus animation only draw.
\<close>

definition update_active_player_score :: "space_ship \<Rightarrow> space_ship" where
  "update_active_player_score s =
     (let s1 = s\<lparr>score := score s + POINTS_PER_ENEMY,
                 points_since_last_life := points_since_last_life s + POINTS_PER_ENEMY\<rparr>
      in if points_since_last_life s1 \<ge> BONUS_LIFE_THRESHOLD then
           (if lives s1 < MAX_LIVES then
              s1\<lparr>lives := lives s1 + 1, points_since_last_life := 0\<rparr>
            else s1)
         else s1)"

text \<open>\<open>ScreenGame.boss_destroyed\<close>: the bonus goes to the score only.\<close>

definition boss_destroyed :: "space_ship \<Rightarrow> space_ship" where
  "boss_destroyed s = update_active_player_score (s\<lparr>score := score s + BOSS_BONUS_POINTS\<rparr>)"

text \<open>
  The two events that update the score of the active ship, and a sequence of them:
  an alien destroyed (\<open>check_enemy_hit\<close> calls \<open>update_active_player_score\<close>) and the
  boss destroyed (\<open>boss_destroyed\<close>).
\<close>

datatype score_event = Enemy_destroyed | Boss_destroyed

fun score_step :: "score_event \<Rightarrow> space_ship \<Rightarrow> space_ship" where
  "score_step Enemy_destroyed s = update_active_player_score s"
| "score_step Boss_destroyed s = boss_destroyed s"

fun score_run :: "score_event list \<Rightarrow> space_ship \<Rightarrow> space_ship" where
  "score_run [] s = s"
| "score_run (e # es) s = score_run es (score_step e s)"

text \<open>Whether a score update grants a life: the lives grow by one.\<close>

definition grants_life :: "space_ship \<Rightarrow> bool" where
  "grants_life s \<longleftrightarrow> lives (update_active_player_score s) = lives s + 1"

text \<open>
  Whether a score update takes the counter across the threshold: below it before the
  update, at or above it once the points are added.
\<close>

definition crosses_threshold :: "space_ship \<Rightarrow> bool" where
  "crosses_threshold s \<longleftrightarrow>
     points_since_last_life s < BONUS_LIFE_THRESHOLD
     \<and> points_since_last_life s + POINTS_PER_ENEMY \<ge> BONUS_LIFE_THRESHOLD"

section \<open>The alien swarm (aliens.py)\<close>

text \<open>
  A closure armed with \<open>screen.ontimer\<close>, with the timer id it captured as
  \<open>current_id\<close>.
\<close>

datatype alien_callback = Movement_callback int | Shooting_callback int

text \<open>
  The state of \<open>Aliens\<close>. \<open>armed\<close> lists the callbacks the swarm has passed to
  \<open>screen.ontimer\<close>, each with its delay in milliseconds.
\<close>

record aliens_swarm =
  aliens :: "turtle list"
  direction :: int
  step_x :: int
  step_y :: int
  movement_speed :: real
  enemy_lasers :: "laser list"
  shooting_chance :: real
  is_running :: bool
  movement_timer_id :: int
  shooting_timer_id :: int
  armed :: "(alien_callback \<times> int) list"

text \<open>
  The first loop of \<open>move_aliens\<close>: each alien is set to its new x coordinate, and
  \<open>should_descend\<close> is raised when that coordinate is past a wall less the 40-unit margin.
\<close>

fun move_horizontally :: "real \<Rightarrow> turtle list \<Rightarrow> bool \<Rightarrow> turtle list \<times> bool" where
  "move_horizontally dx [] should_descend = ([], should_descend)"
| "move_horizontally dx (alien # rest) should_descend =
     (let new_x = xcor alien + dx;
          (rest', flag) =
            move_horizontally dx rest
              (if new_x > WALLS_right - 40 \<or> new_x < WALLS_left + 40 then True
               else should_descend)
      in (alien\<lparr>xcor := new_x\<rparr> # rest', flag))"

definition move_aliens :: "aliens_swarm \<Rightarrow> aliens_swarm" where
  "move_aliens s =
     (if \<not> is_running s \<or> aliens s = [] then s
      else
        (let (moved, should_descend) =
               move_horizontally (real_of_int (step_x s * direction s)) (aliens s) False
         in if should_descend then
              s\<lparr>direction := direction s * - 1,
                aliens := map (\<lambda>alien. alien\<lparr>ycor := ycor alien - real_of_int (step_y s)\<rparr>) moved\<rparr>
            else s\<lparr>aliens := moved\<rparr>))"

text \<open>Python's \<open>int(x)\<close> on a float: truncation towards zero.\<close>

definition py_int :: "real \<Rightarrow> int" where
  "py_int x = (if 0 \<le> x then \<lfloor>x\<rfloor> else \<lceil>x\<rceil>)"

definition start_movement_loop :: "aliens_swarm \<Rightarrow> aliens_swarm" where
  "start_movement_loop s =
     (if \<not> is_running s then s
      else
        (let current_id = movement_timer_id s;
             s1 = (if movement_timer_id s = current_id then move_aliens s else s);
             interval = py_int (movement_speed s1 * 1000)
         in s1\<lparr>armed := armed s1 @ [(Movement_callback current_id, interval)]\<rparr>))"

text \<open>
  \<open>alien_shoot\<close>. The random draws are arguments: \<open>random_value\<close> is the value of
  \<open>random()\<close>, \<open>choice_index\<close> picks the element \<open>choice\<close> returns, \<open>randint_value\<close> is
  the value of \<open>randint(200, 600)\<close>, and \<open>laser_oid\<close> is the identity of the created
  \<open>EnemyLaser\<close>.
\<close>

record draws =
  random_value :: real
  choice_index :: nat
  randint_value :: int
  laser_oid :: nat

definition alien_shoot :: "draws \<Rightarrow> aliens_swarm \<Rightarrow> aliens_swarm" where
  "alien_shoot d s =
     (if \<not> is_running s then s
      else
        (let current_id = shooting_timer_id s;
             s1 = (if length (enemy_lasers s) < MAX_ENEMY_LASERS \<and> aliens s \<noteq> [] then
                     (if random_value d < shooting_chance s then
                        (let shooter = aliens s ! (choice_index d mod length (aliens s))
                         in s\<lparr>enemy_lasers :=
                                enemy_lasers s @ [EnemyLaser (laser_oid d) (xcor shooter, ycor shooter)]\<rparr>)
                      else s)
                   else s)
         in s1\<lparr>armed := armed s1 @ [(Shooting_callback current_id, randint_value d)]\<rparr>))"

text \<open>
  The two closures named \<open>callback\<close>: what runs when the screen fires an armed timer.
\<close>

fun fire_callback :: "alien_callback \<Rightarrow> draws \<Rightarrow> aliens_swarm \<Rightarrow> aliens_swarm" where
  "fire_callback (Movement_callback current_id) d s =
     (if is_running s \<and> movement_timer_id s = current_id then start_movement_loop s else s)"
| "fire_callback (Shooting_callback current_id) d s =
     (if is_running s \<and> shooting_timer_id s = current_id then alien_shoot d s else s)"

definition cancel_timers :: "aliens_swarm \<Rightarrow> aliens_swarm" where
  "cancel_timers s =
     s\<lparr>is_running := False,
       movement_timer_id := movement_timer_id s + 1,
       shooting_timer_id := shooting_timer_id s + 1\<rparr>"

text \<open>\<open>Aliens.start\<close>: only the movement timer id is incremented here.\<close>

definition start :: "draws \<Rightarrow> aliens_swarm \<Rightarrow> aliens_swarm" where
  "start d s =
     alien_shoot d
       (start_movement_loop
          (s\<lparr>movement_timer_id := movement_timer_id s + 1, is_running := True\<rparr>))"

text \<open>
  \<open>Aliens.handle_alien_hit\<close>: \<open>list.remove\<close> takes out the first occurrence of the object.
  The explosion only draws.
\<close>

fun remove_oid :: "nat \<Rightarrow> turtle list \<Rightarrow> turtle list" where
  "remove_oid i [] = []"
| "remove_oid i (a # rest) = (if oid a = i then rest else a # remove_oid i rest)"

definition handle_alien_hit :: "turtle \<Rightarrow> aliens_swarm \<Rightarrow> aliens_swarm" where
  "handle_alien_hit alien s =
     (if list_ex (\<lambda>a. oid a = oid alien) (aliens s)
      then s\<lparr>aliens := remove_oid (oid alien) (aliens s)\<rparr> else s)"

section \<open>The game and its tick (window.py)\<close>

text \<open>
  The part of \<open>ScreenGame\<close> the tick works on: the pause flag, whether the canvas widget
  still exists (\<open>canvas.winfo_exists()\<close>), the active ship, the swarm, the blocks of the
  shield generator, and \<open>scheduled\<close>, the delays (in milliseconds) after which
  \<open>game_loop\<close> has been armed to run again with \<open>screen.ontimer\<close>.
\<close>

record screen_game =
  paused :: bool
  canvas_exists :: bool
  active_ship :: space_ship
  swarm :: aliens_swarm
  blocks :: "shield_block list"
  scheduled :: "int list"

text \<open>\<open>laser.active = False; laser.hideturtle()\<close> on the object with identity \<open>i\<close>.\<close>

definition deactivate :: "nat \<Rightarrow> laser list \<Rightarrow> laser list" where
  "deactivate i ls = map (\<lambda>l. if oid l = i then l\<lparr>active := False, shown := False\<rparr> else l) ls"

text \<open>
  \<open>ScreenGame.check_enemy_hit\<close>: the hits are computed first, then each hit deactivates
  its laser, removes its alien and updates the score. The laser stays in the ship's list:
  only \<open>update_lasers\<close> filters that list.
\<close>

fun resolve_enemy_hits :: "(laser \<times> turtle) list \<Rightarrow> screen_game \<Rightarrow> screen_game" where
  "resolve_enemy_hits [] g = g"
| "resolve_enemy_hits ((l, alien) # rest) g =
     resolve_enemy_hits rest
       (g\<lparr>active_ship :=
            update_active_player_score
              ((active_ship g)\<lparr>lasers := deactivate (oid l) (lasers (active_ship g))\<rparr>),
          swarm := handle_alien_hit alien (swarm g)\<rparr>)"

definition check_enemy_hit :: "screen_game \<Rightarrow> screen_game" where
  "check_enemy_hit g =
     resolve_enemy_hits
       (check_lasers_vs_targets (lasers (active_ship g)) (aliens (swarm g)) 20) g"

text \<open>\<open>self.shields.check_collision(self.active_ship.lasers)\<close>, the next line of the tick.\<close>

definition shields_vs_player_lasers :: "screen_game \<Rightarrow> screen_game" where
  "shields_vs_player_lasers g =
     (let (bs, ls) = check_collision (blocks g) (lasers (active_ship g))
      in g\<lparr>blocks := bs, active_ship := (active_ship g)\<lparr>lasers := ls\<rparr>\<rparr>)"

text \<open>
  \<open>ScreenGame.game_loop\<close>. The statements of the \<open>try\<close> block are the argument
  \<open>tick_body\<close>: it returns the game as the block left it and the exception that ended
  it, if one did. The result of \<open>game_loop\<close> has the same shape: \<open>TurtleGraphicsError\<close>
  is caught (the handler is \<open>return\<close>), any other exception leaves the function.
\<close>

datatype error = TurtleGraphicsError | Other_exception

definition ontimer_game_loop :: "int \<Rightarrow> screen_game \<Rightarrow> screen_game" where
  "ontimer_game_loop ms g = g\<lparr>scheduled := scheduled g @ [ms]\<rparr>"

definition game_loop ::
  "(screen_game \<Rightarrow> screen_game \<times> error option) \<Rightarrow> screen_game \<Rightarrow> screen_game \<times> error option" where
  "game_loop tick_body g =
     (if \<not> paused g \<and> canvas_exists g then
        (case tick_body g of
           (g1, Some TurtleGraphicsError) \<Rightarrow> (g1, None)
         | (g1, Some Other_exception) \<Rightarrow> (g1, Some Other_exception)
         | (g1, None) \<Rightarrow> (ontimer_game_loop 20 g1, None))
      else (ontimer_game_loop 20 g, None))"

text \<open>A tick body whose first statement, \<open>screen.update()\<close>, raises \<open>TurtleGraphicsError\<close>.\<close>

definition update_raises :: "screen_game \<Rightarrow> screen_game \<times> error option" where
  "update_raises g = (g, Some TurtleGraphicsError)"

section \<open>Notions used in the statements\<close>

text \<open>An x coordinate is past a wall less the 40-unit margin.\<close>

definition past_margin :: "real \<Rightarrow> bool" where
  "past_margin x \<longleftrightarrow> x > WALLS_right - 40 \<or> x < WALLS_left + 40"

text \<open>
  The pair a player laser contributes in \<open>check_laser_vs_laser\<close>: none when it is
  inactive, otherwise itself with the first active enemy laser nearer than 10 units, if
  there is one.
\<close>

definition first_enemy_hit :: "laser list \<Rightarrow> laser \<Rightarrow> (laser \<times> laser) option" where
  "first_enemy_hit enemy p =
     (if active p
      then map_option (Pair p) (find (\<lambda>e. active e \<and> distance p e < 10) enemy)
      else None)"

text \<open>The identities of the targets of a list of hits, in order.\<close>

definition target_oids :: "('l \<times> 'a turtle_scheme) list \<Rightarrow> nat list" where
  "target_oids hits = map (\<lambda>h. oid (snd h)) hits"

section \<open>Example states\<close>

text \<open>
  Player 1's ship as \<open>screen_config\<close> creates it: at x = 0, above the bottom wall by the
  bottom margin of 15 percent of the screen height.
\<close>

definition player1_ship :: space_ship where
  "player1_ship = SpaceShip 1 (0, WALLS_bottom + SCREEN_height * (15 / 100))"

text \<open>The swarm as \<open>Aliens.__init__\<close> leaves it.\<close>

definition Aliens_init :: aliens_swarm where
  "Aliens_init =
     \<lparr>aliens = [], direction = 1, step_x = 10, step_y = 10, movement_speed = 8 / 100,
      enemy_lasers = [], shooting_chance = 8 / 10, is_running = False,
      movement_timer_id = 0, shooting_timer_id = 0, armed = []\<rparr>"

text \<open>
  A running swarm moving right whose rightmost alien stands at x = 440, the last
  coordinate that is not past the margin; its movement callback is armed.
\<close>

definition edge_swarm :: aliens_swarm where
  "edge_swarm =
     Aliens_init
       \<lparr>aliens := [\<lparr>oid = 100, xcor = 440, ycor = 412, shown = True\<rparr>,
                   \<lparr>oid = 101, xcor = 380, ycor = 412, shown = True\<rparr>],
        is_running := True, movement_timer_id := 1,
        armed := [(Movement_callback 1, 80), (Shooting_callback 0, 300)]\<rparr>"

definition some_draws :: draws where
  "some_draws = \<lparr>random_value = 1 / 2, choice_index = 0, randint_value = 400, laser_oid = 200\<rparr>"

text \<open>
  The game at the start of a tick, ten ticks after the ship fired from x = -60: the
  laser stands at y = -240.72 and will move to y = -230.72. An alien that has come down
  to the shields stands at (-70, -218), 16.2 units from where the laser will be; a shield
  block stands at (-46, -231), 14.003 units from there. Before the move the laser is 24.8
  units from the alien and 17.05 units from the block, out of reach of both. There is no
  enemy laser, so the statements of the tick that work on enemy lasers do nothing.
\<close>

definition laser_between_alien_and_shield :: screen_game where
  "laser_between_alien_and_shield =
     \<lparr>paused = False, canvas_exists = True,
      active_ship =
        (SpaceShip 1 (- 60, WALLS_bottom + SCREEN_height * (15 / 100)))
          \<lparr>lasers := [Laser 10 (- 60, - 24072 / 100)]\<rparr>,
      swarm =
        Aliens_init
          \<lparr>aliens := [\<lparr>oid = 20, xcor = - 70, ycor = - 218, shown = True\<rparr>],
           is_running := True, movement_timer_id := 1\<rparr>,
      blocks = [ShieldBlock 30 (- 46, - 231)],
      scheduled = []\<rparr>"

text \<open>
  The statements of the tick that work on the player's lasers, up to the shield pass:
  \<open>active_ship.update_lasers()\<close>, \<open>check_enemy_hit()\<close> and
  \<open>shields.check_collision(active_ship.lasers)\<close>.
\<close>

definition lasers_moved :: "screen_game \<Rightarrow> screen_game" where
  "lasers_moved g = g\<lparr>active_ship := update_lasers (active_ship g)\<rparr>"

text \<open>
  A laser at (300, -230.72) between two neighbouring blocks of the rightmost shield, at
  (288, -231) and (313, -231): 12.003 and 13.003 units away.
\<close>

definition laser_between_blocks :: laser where
  "laser_between_blocks = Laser 11 (300, - 23072 / 100)"

definition neighbouring_blocks :: "shield_block list" where
  "neighbouring_blocks = [ShieldBlock 31 (288, - 231), ShieldBlock 32 (313, - 231)]"

text \<open>
  Two player lasers at the same place: both were fired from x = 0 while the game was
  paused, the second once the cooldown had passed, and have moved together for 23 ticks
  to y = -100.72. An enemy laser comes down the same column and stands at y = -98, 2.72
  units above them; one tick earlier it was 22.72 units away.
\<close>

definition twin_lasers :: "laser list" where
  "twin_lasers = [Laser 12 (0, - 10072 / 100), Laser 13 (0, - 10072 / 100)]"

definition falling_laser :: laser where
  "falling_laser = EnemyLaser 14 (0, - 98)"

text \<open>Two lasers, the second inactive one between them, and two aliens side by side.\<close>

definition three_lasers :: "laser list" where
  "three_lasers = [Laser 15 (0, 0), (Laser 16 (2, 0))\<lparr>active := False\<rparr>, Laser 17 (4, 0)]"

definition two_aliens :: "turtle list" where
  "two_aliens = [\<lparr>oid = 21, xcor = 3, ycor = 8, shown = True\<rparr>,
                 \<lparr>oid = 22, xcor = 8, ycor = 8, shown = True\<rparr>]"

text \<open>
  A fresh ship that fired at time 98.5, 75 ticks later: the laser is still in flight, at
  y = 419.28 below the top wall at 512, and the cooldown of 1.5 seconds ends at time 100.
\<close>

definition ship_with_laser_in_flight :: space_ship where
  "ship_with_laser_in_flight = (update_lasers ^^ 75) (fire (197 / 2) 7 player1_ship)"

section \<open>Distances\<close>

text \<open>
  A distance is below a threshold exactly when the threshold is positive and the squared
  distance is below its square; this is how the concrete examples are evaluated.
\<close>

lemma distance_less_iff:
  "distance a b < t \<longleftrightarrow> 0 < t \<and> (xcor b - xcor a)\<^sup>2 + (ycor b - ycor a)\<^sup>2 < t\<^sup>2"
proof (cases "0 < t")
  case True
  have "sqrt ((xcor b - xcor a)\<^sup>2 + (ycor b - ycor a)\<^sup>2) < sqrt (t\<^sup>2)
        \<longleftrightarrow> (xcor b - xcor a)\<^sup>2 + (ycor b - ycor a)\<^sup>2 < t\<^sup>2"
    by (rule real_sqrt_less_iff)
  with True show ?thesis by (simp add: distance_def)
next
  case False
  have "0 \<le> sqrt ((xcor b - xcor a)\<^sup>2 + (ycor b - ycor a)\<^sup>2)" by simp
  with False have "\<not> sqrt ((xcor b - xcor a)\<^sup>2 + (ycor b - ycor a)\<^sup>2) < t" by linarith
  with False show ?thesis by (simp add: distance_def)
qed

lemma distance_less_eval:
  "distance a b < t \<longleftrightarrow>
     0 < t \<and> (xcor b - xcor a) * (xcor b - xcor a) + (ycor b - ycor a) * (ycor b - ycor a) < t * t"
  by (simp add: distance_less_iff power2_eq_square)

section \<open>One score update\<close>

text \<open>\<open>update_active_player_score\<close> with the constants written out.\<close>

lemma update_active_player_score_step:
  "update_active_player_score s =
     (if points_since_last_life s + 20 \<ge> 2000 \<and> lives s < 5
      then s\<lparr>score := score s + 20, lives := lives s + 1, points_since_last_life := 0\<rparr>
      else s\<lparr>score := score s + 20,
             points_since_last_life := points_since_last_life s + 20\<rparr>)"
  by (simp add: update_active_player_score_def Let_def game_specs_defs)

section \<open>One laser, several collisions in a tick\<close>

lemma laser_moves_into_reach:
  "lasers_moved laser_between_alien_and_shield =
     laser_between_alien_and_shield
       \<lparr>active_ship :=
          (SpaceShip 1 (- 60, WALLS_bottom + SCREEN_height * (15 / 100)))
            \<lparr>lasers := [Laser 10 (- 60, - 23072 / 100)]\<rparr>\<rparr>"
  by (simp add: lasers_moved_def laser_between_alien_and_shield_def update_lasers_def
        laser_move_def Laser_def SpaceShip_def game_specs_defs Let_def)

text \<open>Before the move the laser is out of reach of the alien and of the block.\<close>

lemma laser_out_of_reach_before:
  "check_lasers_vs_targets (lasers (active_ship laser_between_alien_and_shield))
     (aliens (swarm laser_between_alien_and_shield)) 20 = []
   \<and> check_collision (blocks laser_between_alien_and_shield)
       (lasers (active_ship laser_between_alien_and_shield))
       = (blocks laser_between_alien_and_shield,
          lasers (active_ship laser_between_alien_and_shield))"
  by (simp add: laser_between_alien_and_shield_def check_lasers_vs_targets_def Laser_def
        ShieldBlock_def SpaceShip_def Aliens_init_def distance_less_eval)

lemma enemy_hit_deactivates_laser:
  "check_enemy_hit (lasers_moved laser_between_alien_and_shield) =
     laser_between_alien_and_shield
       \<lparr>active_ship :=
          (SpaceShip 1 (- 60, WALLS_bottom + SCREEN_height * (15 / 100)))
            \<lparr>lasers := [(Laser 10 (- 60, - 23072 / 100))\<lparr>active := False, shown := False\<rparr>],
             score := 20, points_since_last_life := 20\<rparr>,
        swarm := (swarm laser_between_alien_and_shield)\<lparr>aliens := []\<rparr>\<rparr>"
  unfolding laser_moves_into_reach
  by (simp add: check_enemy_hit_def check_lasers_vs_targets_def
        laser_between_alien_and_shield_def Laser_def distance_less_eval
        Aliens_init_def deactivate_def handle_alien_hit_def
        update_active_player_score_step SpaceShip_def game_specs_defs)

text \<open>
  Claim C1 fails on the code. In this tick \<open>check_enemy_hit\<close> resolves the laser against
  the alien and sets its \<open>active\<close> flag to false; the shield pass that follows still
  takes the inactive laser and damages the block with it.
\<close>

theorem inactive_laser_damages_shield:
  "map active (lasers (active_ship (check_enemy_hit (lasers_moved laser_between_alien_and_shield))))
     = [False]
   \<and> map hp (blocks (check_enemy_hit (lasers_moved laser_between_alien_and_shield))) = [3]
   \<and> map hp (blocks (shields_vs_player_lasers
                        (check_enemy_hit (lasers_moved laser_between_alien_and_shield)))) = [2]"
  unfolding enemy_hit_deactivates_laser
  by (simp add: shields_vs_player_lasers_def laser_between_alien_and_shield_def Laser_def
        ShieldBlock_def take_damage_def distance_less_eval SpaceShip_def)

text \<open>
  Within the shield pass itself one laser is resolved against every block in reach: the
  laser between two neighbouring blocks damages both. One tick earlier, 10 units lower, it
  was out of reach of both.
\<close>

lemma laser_damages_two_blocks:
  "map hp (fst (check_collision neighbouring_blocks [laser_between_blocks])) = [2, 2]
   \<and> map hp (fst (check_collision neighbouring_blocks
                      [laser_between_blocks\<lparr>ycor := ycor laser_between_blocks - 10\<rparr>])) = [3, 3]"
  by (simp add: neighbouring_blocks_def laser_between_blocks_def Laser_def ShieldBlock_def
        take_damage_def distance_less_eval)

section \<open>Lasers against lasers\<close>

lemma scan_enemy_lasers_find:
  "scan_enemy_lasers p es = find (\<lambda>e. active e \<and> distance p e < 10) es"
  by (induction es) simp_all

lemma laser_vs_laser_loop_eq:
  "laser_vs_laser_loop ps es hits = hits @ List.map_filter (first_enemy_hit es) ps"
  by (induction ps arbitrary: hits)
     (auto simp: scan_enemy_lasers_find first_enemy_hit_def split: option.splits)

lemma map_filter_fst_subseq:
  "(\<And>p h. f p = Some h \<Longrightarrow> fst h = p \<and> P p) \<Longrightarrow>
   subseq (map fst (List.map_filter f ps)) (filter P ps)"
proof (induction ps)
  case Nil
  show ?case by simp
next
  case (Cons p ps)
  show ?case
  proof (cases "f p")
    case None
    with Cons show ?thesis
      by auto
  next
    case (Some h)
    with Cons.prems have "fst h = p" "P p" by blast+
    with Some Cons show ?thesis by simp
  qed
qed

text \<open>
  Claim C2, as amended. \<open>check_laser_vs_laser\<close> returns, in the order of the player
  lasers, one pair for each active player laser that has an active enemy laser nearer
  than 10 units: the laser with the first such enemy laser in list order. Each player
  laser of the list gives at most one pair; nothing keeps an enemy laser from being
  the partner of several player lasers.
\<close>

theorem laser_vs_laser_first_match:
  "check_laser_vs_laser ps es = List.map_filter (first_enemy_hit es) ps
   \<and> subseq (map fst (check_laser_vs_laser ps es)) (filter active ps)
   \<and> (\<forall>h \<in> set (check_laser_vs_laser ps es).
         find (\<lambda>e. active e \<and> distance (fst h) e < 10) es = Some (snd h))"
proof -
  have eq: "check_laser_vs_laser ps es = List.map_filter (first_enemy_hit es) ps"
    by (simp add: check_laser_vs_laser_def laser_vs_laser_loop_eq)
  have "first_enemy_hit es p = Some h \<Longrightarrow> fst h = p \<and> active p" for p h
    by (auto simp: first_enemy_hit_def split: if_splits)
  then have sub: "subseq (map fst (List.map_filter (first_enemy_hit es) ps)) (filter active ps)"
    by (rule map_filter_fst_subseq)
  have "find (\<lambda>e. active e \<and> distance (fst h) e < 10) es = Some (snd h)"
    if "h \<in> set (List.map_filter (first_enemy_hit es) ps)" for h
  proof -
    from that obtain p where "first_enemy_hit es p = Some h"
      by (auto simp: List.map_filter_def)
    then show ?thesis
      by (auto simp: first_enemy_hit_def split: if_splits)
  qed
  with eq sub show ?thesis by simp
qed

lemma twin_lasers_hits:
  "check_laser_vs_laser twin_lasers [falling_laser]
     = [(Laser 12 (0, - 10072 / 100), falling_laser), (Laser 13 (0, - 10072 / 100), falling_laser)]"
  by (simp add: check_laser_vs_laser_def twin_lasers_def falling_laser_def Laser_def
        EnemyLaser_def distance_less_eval)

theorem laser_vs_laser_first_match_witness:
  "(Laser 13 (0, - 10072 / 100), falling_laser) \<in> set (check_laser_vs_laser twin_lasers [falling_laser])
   \<and> find (\<lambda>e. active e \<and> distance (Laser 13 (0, - 10072 / 100)) e < 10) [falling_laser]
       = Some falling_laser
   \<and> map (oid \<circ> fst) (check_laser_vs_laser twin_lasers [falling_laser]) = [12, 13]"
proof -
  have m: "(Laser 13 (0, - 10072 / 100), falling_laser)
             \<in> set (check_laser_vs_laser twin_lasers [falling_laser])"
    by (simp add: twin_lasers_hits)
  with laser_vs_laser_first_match [of twin_lasers "[falling_laser]"]
  have "find (\<lambda>e. active e \<and> distance (fst (Laser 13 (0, - 10072 / 100), falling_laser)) e < 10)
          [falling_laser] = Some (snd (Laser 13 (0, - 10072 / 100), falling_laser))"
    by blast
  with m show ?thesis by (simp add: twin_lasers_hits Laser_def)
qed

text \<open>
  The claim as stated fails: with two player lasers at the same place the enemy laser
  above them is returned twice, once with each of them.
\<close>

theorem laser_vs_laser_not_one_to_one_counterexample:
  "target_oids (check_laser_vs_laser twin_lasers [falling_laser]) = [14, 14]
   \<and> \<not> distinct (target_oids (check_laser_vs_laser twin_lasers [falling_laser]))"
  unfolding twin_lasers_hits
  by (simp add: target_oids_def falling_laser_def EnemyLaser_def)

section \<open>Lasers against targets\<close>

lemma scan_targets_find:
  "scan_targets l ts H th = find (\<lambda>t. oid t \<notin> H \<and> distance t l < th) ts"
  by (induction ts) simp_all

lemma target_oids_simps:
  "target_oids [] = []"
  "target_oids (hits @ others) = target_oids hits @ target_oids others"
  "target_oids ((l, t) # others) = oid t # target_oids others"
  by (simp_all add: target_oids_def)

lemma lasers_vs_targets_loop_invariant:
  assumes "H = set (target_oids hits)" and "distinct (target_oids hits)"
  shows "\<exists>new. lasers_vs_targets_loop ls ts th hits H = hits @ new
           \<and> distinct (target_oids (hits @ new))
           \<and> subseq (map fst new) (filter active ls)
           \<and> (\<forall>i < length new.
                 find (\<lambda>t. oid t \<notin> set (target_oids (hits @ take i new))
                            \<and> distance t (fst (new ! i)) < th) ts
                 = Some (snd (new ! i)))"
  using assms
proof (induction ls arbitrary: hits H)
  case Nil
  then show ?case by simp
next
  case (Cons l ls)
  from Cons.IH [OF Cons.prems] obtain new where n:
    "lasers_vs_targets_loop ls ts th hits H = hits @ new"
    "distinct (target_oids (hits @ new))"
    "subseq (map fst new) (filter active ls)"
    "\<forall>i < length new.
        find (\<lambda>u. oid u \<notin> set (target_oids (hits @ take i new))
                   \<and> distance u (fst (new ! i)) < th) ts
        = Some (snd (new ! i))"
    by blast
  have skip: ?case if "lasers_vs_targets_loop (l # ls) ts th hits H
                         = lasers_vs_targets_loop ls ts th hits H"
  proof -
    have a: "lasers_vs_targets_loop (l # ls) ts th hits H = hits @ new"
      using that n(1) by simp
    have c: "subseq (map fst new) (filter active (l # ls))"
      using n(3) by (simp add: list_emb_Cons)
    from a n(2) c n(4) show ?thesis by blast
  qed
  show ?case
  proof (cases "active l")
    case False
    then show ?thesis by (intro skip) simp
  next
    case True
    show ?thesis
    proof (cases "scan_targets l ts H th")
      case None
      with True show ?thesis by (intro skip) simp
    next
      case (Some t)
      then have f: "find (\<lambda>t. oid t \<notin> H \<and> distance t l < th) ts = Some t"
        by (simp add: scan_targets_find)
      then have fresh: "oid t \<notin> H"
        by (auto simp: find_Some_iff)
      have h1: "insert (oid t) H = set (target_oids (hits @ [(l, t)]))"
        using Cons.prems(1) by (simp add: target_oids_simps)
      have h2: "distinct (target_oids (hits @ [(l, t)]))"
        using Cons.prems fresh by (simp add: target_oids_simps)
      from Cons.IH [OF h1 h2] obtain new' where n':
        "lasers_vs_targets_loop ls ts th (hits @ [(l, t)]) (insert (oid t) H)
           = (hits @ [(l, t)]) @ new'"
        "distinct (target_oids ((hits @ [(l, t)]) @ new'))"
        "subseq (map fst new') (filter active ls)"
        "\<forall>i < length new'.
            find (\<lambda>u. oid u \<notin> set (target_oids ((hits @ [(l, t)]) @ take i new'))
                       \<and> distance u (fst (new' ! i)) < th) ts
            = Some (snd (new' ! i))"
        by blast
      let ?new = "(l, t) # new'"
      have a: "lasers_vs_targets_loop (l # ls) ts th hits H = hits @ ?new"
        using True Some n'(1) by simp
      have b: "distinct (target_oids (hits @ ?new))"
        using n'(2) by simp
      have c: "subseq (map fst ?new) (filter active (l # ls))"
        using True n'(3) by simp
      have d: "find (\<lambda>u. oid u \<notin> set (target_oids (hits @ take i ?new))
                       \<and> distance u (fst (?new ! i)) < th) ts
               = Some (snd (?new ! i))" if "i < length ?new" for i
      proof (cases i)
        case 0
        then show ?thesis using f Cons.prems(1) by simp
      next
        case (Suc j)
        with that have "j < length new'" by simp
        with n'(4) Suc show ?thesis by simp
      qed
      from a b c d show ?thesis by blast
    qed
  qed
qed

lemma lasers_vs_targets_loop_extends:
  "\<exists>new. lasers_vs_targets_loop ls ts th hits H = hits @ new"
proof (induction ls arbitrary: hits H)
  case Nil
  show ?case by simp
next
  case (Cons l ls)
  show ?case
  proof (cases "active l")
    case False
    then show ?thesis using Cons.IH [of hits H] by simp
  next
    case True
    show ?thesis
    proof (cases "scan_targets l ts H th")
      case None
      with True show ?thesis using Cons.IH [of hits H] by simp
    next
      case (Some t)
      from Cons.IH [of "hits @ [(l, t)]" "insert (oid t) H"] obtain new where
        "lasers_vs_targets_loop ls ts th (hits @ [(l, t)]) (insert (oid t) H)
           = (hits @ [(l, t)]) @ new"
        by blast
      with True Some show ?thesis by simp
    qed
  qed
qed

text \<open>
  The loop over a list of lasers followed by more lasers is the loop over the first list
  and then the loop over the rest, started from the hits found so far.
\<close>

lemma lasers_vs_targets_loop_append:
  "H = set (target_oids hits) \<Longrightarrow>
   lasers_vs_targets_loop (ls1 @ ls2) ts th hits H =
     lasers_vs_targets_loop ls2 ts th (lasers_vs_targets_loop ls1 ts th hits H)
       (set (target_oids (lasers_vs_targets_loop ls1 ts th hits H)))"
proof (induction ls1 arbitrary: hits H)
  case Nil
  then show ?case by simp
next
  case (Cons l ls1)
  show ?case
  proof (cases "active l")
    case False
    then show ?thesis using Cons.IH [OF Cons.prems] by simp
  next
    case True
    show ?thesis
    proof (cases "scan_targets l ts H th")
      case None
      with True show ?thesis using Cons.IH [OF Cons.prems] by simp
    next
      case (Some t)
      have "insert (oid t) H = set (target_oids (hits @ [(l, t)]))"
        using Cons.prems by (simp add: target_oids_simps)
      from Cons.IH [OF this] True Some show ?thesis by simp
    qed
  qed
qed

text \<open>
  An active laser of the list that is in no hit found every target in its reach already
  taken.
\<close>

lemma unmatched_laser_targets_taken:
  "H = set (target_oids hits) \<Longrightarrow> l \<in> set ls \<Longrightarrow> active l \<Longrightarrow>
   l \<notin> fst ` set (lasers_vs_targets_loop ls ts th hits H) \<Longrightarrow>
   t \<in> set ts \<Longrightarrow> distance t l < th \<Longrightarrow>
   oid t \<in> set (target_oids (lasers_vs_targets_loop ls ts th hits H))"
proof (induction ls arbitrary: hits H)
  case Nil
  then show ?case by simp
next
  case (Cons a ls)
  show ?case
  proof (cases "active a")
    case False
    with Cons.prems have "l \<in> set ls" by auto
    with False Cons.prems Cons.IH [of H hits] show ?thesis by simp
  next
    case True
    show ?thesis
    proof (cases "scan_targets a ts H th")
      case None
      show ?thesis
      proof (cases "l = a")
        case True
        from None have "find (\<lambda>u. oid u \<notin> H \<and> distance u a < th) ts = None"
          by (simp add: scan_targets_find)
        with Cons.prems(5,6) \<open>l = a\<close> have "oid t \<in> H"
          by (auto simp: find_None_iff)
        moreover obtain new where "lasers_vs_targets_loop (a # ls) ts th hits H = hits @ new"
          using lasers_vs_targets_loop_extends by blast
        ultimately show ?thesis
          using Cons.prems(1) by (simp add: target_oids_simps)
      next
        case False
        with Cons.prems have "l \<in> set ls" by auto
        with None \<open>active a\<close> Cons.prems Cons.IH [of H hits] show ?thesis by simp
      qed
    next
      case (Some u)
      have eq: "lasers_vs_targets_loop (a # ls) ts th hits H
                  = lasers_vs_targets_loop ls ts th (hits @ [(a, u)]) (insert (oid u) H)"
        using True Some by simp
      obtain new where new:
        "lasers_vs_targets_loop ls ts th (hits @ [(a, u)]) (insert (oid u) H)
           = (hits @ [(a, u)]) @ new"
        using lasers_vs_targets_loop_extends by blast
      have "l \<noteq> a"
      proof
        assume "l = a"
        then have "l \<in> fst ` set (lasers_vs_targets_loop (a # ls) ts th hits H)"
          unfolding eq new by force
        with Cons.prems(4) show False by simp
      qed
      with Cons.prems have l: "l \<in> set ls" by auto
      have h: "insert (oid u) H = set (target_oids (hits @ [(a, u)]))"
        using Cons.prems(1) by (simp add: target_oids_simps)
      from Cons.IH [OF h l Cons.prems(3) _ Cons.prems(5,6)] Cons.prems(4)
      show ?thesis unfolding eq by simp
    qed
  qed
qed

text \<open>
  Claim C3. In the hits \<open>check_lasers_vs_targets\<close> returns: no target occurs twice; the
  lasers are active ones and come in the order of the input list, each laser of the list
  at most once; and the target of each hit is the first target in list order that is
  not a target of an earlier hit and is nearer to the laser than the threshold. The hits
  are all there: the empty list of lasers gives no hit, and one more laser at the end of
  the list adds exactly its own pair, with the first target in reach that the lasers
  before it have left, when it is active and there is such a target, and nothing
  otherwise. So an active laser that is in no hit has every target in its reach taken.
\<close>

theorem first_match_exclusivity:
  "distinct (target_oids (check_lasers_vs_targets ls ts th))
   \<and> subseq (map fst (check_lasers_vs_targets ls ts th)) (filter active ls)
   \<and> (\<forall>h \<in> set (check_lasers_vs_targets ls ts th). active (fst h))
   \<and> (\<forall>i < length (check_lasers_vs_targets ls ts th).
         find (\<lambda>t. oid t \<notin> set (target_oids (take i (check_lasers_vs_targets ls ts th)))
                    \<and> distance t (fst (check_lasers_vs_targets ls ts th ! i)) < th) ts
         = Some (snd (check_lasers_vs_targets ls ts th ! i)))
   \<and> check_lasers_vs_targets [] ts th = []
   \<and> check_lasers_vs_targets (ls @ [l]) ts th
       = check_lasers_vs_targets ls ts th @
           (if active l then
              (case find (\<lambda>t. oid t \<notin> set (target_oids (check_lasers_vs_targets ls ts th))
                               \<and> distance t l < th) ts of
                 None \<Rightarrow> []
               | Some t \<Rightarrow> [(l, t)])
            else [])
   \<and> (\<forall>l' \<in> set ls. active l' \<longrightarrow> l' \<notin> fst ` set (check_lasers_vs_targets ls ts th) \<longrightarrow>
         (\<forall>t \<in> set ts. distance t l' < th \<longrightarrow>
            oid t \<in> set (target_oids (check_lasers_vs_targets ls ts th))))"
proof -
  have old: "distinct (target_oids (check_lasers_vs_targets ls ts th))
   \<and> subseq (map fst (check_lasers_vs_targets ls ts th)) (filter active ls)
   \<and> (\<forall>h \<in> set (check_lasers_vs_targets ls ts th). active (fst h))
   \<and> (\<forall>i < length (check_lasers_vs_targets ls ts th).
         find (\<lambda>t. oid t \<notin> set (target_oids (take i (check_lasers_vs_targets ls ts th)))
                    \<and> distance t (fst (check_lasers_vs_targets ls ts th ! i)) < th) ts
         = Some (snd (check_lasers_vs_targets ls ts th ! i)))"
  proof -
    from lasers_vs_targets_loop_invariant [of "{}" "[]" ls ts th]
    obtain new where n:
      "check_lasers_vs_targets ls ts th = new"
      "distinct (target_oids new)"
      "subseq (map fst new) (filter active ls)"
      "\<forall>i < length new.
          find (\<lambda>t. oid t \<notin> set (target_oids (take i new)) \<and> distance t (fst (new ! i)) < th) ts
          = Some (snd (new ! i))"
      by (auto simp: check_lasers_vs_targets_def target_oids_simps)
    have "active (fst h)" if "h \<in> set new" for h
    proof -
      from that have "fst h \<in> set (map fst new)" by simp
      with n(3) obtain y where "y \<in> set (filter active ls)" "fst h = y"
        by (rule list_emb_set)
      then show ?thesis by simp
    qed
    then have "\<forall>h \<in> set new. active (fst h)" by blast
    with n show ?thesis by simp
  qed
  have e: "check_lasers_vs_targets [] ts th = []"
    by (simp add: check_lasers_vs_targets_def)
  have "lasers_vs_targets_loop (ls @ [l]) ts th [] {} =
          lasers_vs_targets_loop [l] ts th (lasers_vs_targets_loop ls ts th [] {})
            (set (target_oids (lasers_vs_targets_loop ls ts th [] {})))"
    by (rule lasers_vs_targets_loop_append) (simp add: target_oids_simps)
  then have s: "check_lasers_vs_targets (ls @ [l]) ts th
       = check_lasers_vs_targets ls ts th @
           (if active l then
              (case find (\<lambda>t. oid t \<notin> set (target_oids (check_lasers_vs_targets ls ts th))
                               \<and> distance t l < th) ts of
                 None \<Rightarrow> []
               | Some t \<Rightarrow> [(l, t)])
            else [])"
    by (simp add: check_lasers_vs_targets_def scan_targets_find split: option.splits)
  have c: "\<forall>l' \<in> set ls. active l' \<longrightarrow> l' \<notin> fst ` set (check_lasers_vs_targets ls ts th) \<longrightarrow>
         (\<forall>t \<in> set ts. distance t l' < th \<longrightarrow>
            oid t \<in> set (target_oids (check_lasers_vs_targets ls ts th)))"
    unfolding check_lasers_vs_targets_def
    using unmatched_laser_targets_taken [of "{}" "[]" _ ls ts th]
    by (simp add: target_oids_simps)
  from old e s c show ?thesis by blast
qed

lemma three_lasers_hits:
  "check_lasers_vs_targets three_lasers two_aliens 20
     = [(Laser 15 (0, 0), \<lparr>oid = 21, xcor = 3, ycor = 8, shown = True\<rparr>),
        (Laser 17 (4, 0), \<lparr>oid = 22, xcor = 8, ycor = 8, shown = True\<rparr>)]"
  by (simp add: check_lasers_vs_targets_def three_lasers_def two_aliens_def Laser_def
        distance_less_eval)

theorem first_match_exclusivity_witness:
  "(Laser 17 (4, 0), \<lparr>oid = 22, xcor = 8, ycor = 8, shown = True\<rparr>)
     \<in> set (check_lasers_vs_targets three_lasers two_aliens 20)
   \<and> active (Laser 17 (4, 0))
   \<and> 1 < length (check_lasers_vs_targets three_lasers two_aliens 20)
   \<and> find (\<lambda>t. oid t \<notin> set (target_oids (take 1 (check_lasers_vs_targets three_lasers two_aliens 20)))
                \<and> distance t (fst (check_lasers_vs_targets three_lasers two_aliens 20 ! 1)) < 20)
        two_aliens
       = Some \<lparr>oid = 22, xcor = 8, ycor = 8, shown = True\<rparr>
   \<and> target_oids (check_lasers_vs_targets three_lasers two_aliens 20) = [21, 22]
   \<and> check_lasers_vs_targets (three_lasers @ [Laser 18 (6, 0)]) two_aliens 20
       = check_lasers_vs_targets three_lasers two_aliens 20"
proof -
  let ?hits = "check_lasers_vs_targets three_lasers two_aliens 20"
  note t = first_match_exclusivity [of three_lasers two_aliens 20 "Laser 18 (6, 0)"]
  have m: "(Laser 17 (4, 0), \<lparr>oid = 22, xcor = 8, ycor = 8, shown = True\<rparr>) \<in> set ?hits"
    by (simp add: three_lasers_hits)
  with t have a: "active (fst (Laser 17 (4, 0), \<lparr>oid = 22, xcor = 8, ycor = 8, shown = True\<rparr>))"
    by blast
  have len: "1 < length ?hits"
    by (simp add: three_lasers_hits)
  with t have "find (\<lambda>t. oid t \<notin> set (target_oids (take 1 ?hits))
                          \<and> distance t (fst (?hits ! 1)) < 20) two_aliens
               = Some (snd (?hits ! 1))"
    by blast
  then have f: "find (\<lambda>t. oid t \<notin> set (target_oids (take 1 ?hits))
                          \<and> distance t (fst (?hits ! 1)) < 20) two_aliens
               = Some \<lparr>oid = 22, xcor = 8, ycor = 8, shown = True\<rparr>"
    by (simp add: three_lasers_hits)
  have o: "target_oids ?hits = [21, 22]"
    unfolding three_lasers_hits by (simp add: target_oids_def)
  have none: "find (\<lambda>t. oid t \<notin> set (target_oids ?hits) \<and> distance t (Laser 18 (6, 0)) < 20)
                two_aliens = None"
    unfolding o by (simp add: two_aliens_def)
  from t have "check_lasers_vs_targets (three_lasers @ [Laser 18 (6, 0)]) two_aliens 20
       = ?hits @
           (if active (Laser 18 (6, 0)) then
              (case find (\<lambda>t. oid t \<notin> set (target_oids ?hits)
                               \<and> distance t (Laser 18 (6, 0)) < 20) two_aliens of
                 None \<Rightarrow> []
               | Some t \<Rightarrow> [(Laser 18 (6, 0), t)])
            else [])"
    by blast
  then have u: "check_lasers_vs_targets (three_lasers @ [Laser 18 (6, 0)]) two_aliens 20 = ?hits"
    by (simp add: none)
  from m a len f o u show ?thesis by simp
qed

section \<open>Rearming the tick\<close>

text \<open>
  Claim C4, as amended. An invocation of \<open>game_loop\<close> arms itself again after 20 ms when
  the tick body is skipped (the game is paused or the canvas is gone) and when the body
  ends without an exception. When the body raises \<open>TurtleGraphicsError\<close> the invocation
  catches it and returns what the body left, arming nothing.
\<close>

theorem game_loop_rearms_unless_render_error:
  "(paused g \<or> \<not> canvas_exists g \<longrightarrow>
      game_loop tick_body g = (g\<lparr>scheduled := scheduled g @ [20]\<rparr>, None))
   \<and> (\<not> paused g \<and> canvas_exists g \<and> tick_body g = (g1, None) \<longrightarrow>
        game_loop tick_body g = (g1\<lparr>scheduled := scheduled g1 @ [20]\<rparr>, None))
   \<and> (\<not> paused g \<and> canvas_exists g \<and> tick_body g = (g1, Some TurtleGraphicsError) \<longrightarrow>
        game_loop tick_body g = (g1, None))"
  by (auto simp: game_loop_def ontimer_game_loop_def)

theorem game_loop_rearms_unless_render_error_witness:
  "paused (laser_between_alien_and_shield\<lparr>paused := True\<rparr>)
   \<and> scheduled (fst (game_loop update_raises (laser_between_alien_and_shield\<lparr>paused := True\<rparr>))) = [20]
   \<and> \<not> paused laser_between_alien_and_shield
   \<and> canvas_exists laser_between_alien_and_shield
   \<and> update_raises laser_between_alien_and_shield
       = (laser_between_alien_and_shield, Some TurtleGraphicsError)
   \<and> game_loop update_raises laser_between_alien_and_shield = (laser_between_alien_and_shield, None)
   \<and> (\<lambda>g. (lasers_moved g, None)) laser_between_alien_and_shield
       = (lasers_moved laser_between_alien_and_shield, None)
   \<and> scheduled (fst (game_loop (\<lambda>g. (lasers_moved g, None)) laser_between_alien_and_shield)) = [20]"
proof -
  let ?g = laser_between_alien_and_shield
  have p: "paused (?g\<lparr>paused := True\<rparr>)" by simp
  have q: "\<not> paused ?g" "canvas_exists ?g" "scheduled ?g = []"
    by (simp_all add: laser_between_alien_and_shield_def)
  have r: "update_raises ?g = (?g, Some TurtleGraphicsError)"
    by (simp add: update_raises_def)
  have a: "game_loop update_raises (?g\<lparr>paused := True\<rparr>)
             = (?g\<lparr>paused := True, scheduled := scheduled (?g\<lparr>paused := True\<rparr>) @ [20]\<rparr>, None)"
    using game_loop_rearms_unless_render_error [of "?g\<lparr>paused := True\<rparr>" update_raises ?g] p
    by simp
  have b: "game_loop update_raises ?g = (?g, None)"
    using game_loop_rearms_unless_render_error [of ?g update_raises ?g] q r
    by blast
  have c: "game_loop (\<lambda>g. (lasers_moved g, None)) ?g
             = ((lasers_moved ?g)\<lparr>scheduled := scheduled (lasers_moved ?g) @ [20]\<rparr>, None)"
    using game_loop_rearms_unless_render_error
            [of ?g "\<lambda>g. (lasers_moved g, None)" "lasers_moved ?g"] q
    by simp
  from a b c p q r show ?thesis by (simp add: lasers_moved_def)
qed

text \<open>
  The claim as stated fails when the body raises: the game is running, the canvas exists,
  the first statement of the body raises \<open>TurtleGraphicsError\<close>, and \<open>game_loop\<close> returns
  with nothing armed.
\<close>

theorem game_loop_render_error_counterexample:
  "\<not> paused laser_between_alien_and_shield
   \<and> canvas_exists laser_between_alien_and_shield
   \<and> snd (game_loop update_raises laser_between_alien_and_shield) = None
   \<and> scheduled (fst (game_loop update_raises laser_between_alien_and_shield)) = []"
  by (simp add: game_loop_def update_raises_def laser_between_alien_and_shield_def)

section \<open>Bonus lives\<close>

lemma score_updates_invariant:
  "lives s \<le> MAX_LIVES \<Longrightarrow> 0 \<le> points_since_last_life s \<Longrightarrow>
   lives ((update_active_player_score ^^ n) s) \<le> MAX_LIVES
   \<and> 0 \<le> points_since_last_life ((update_active_player_score ^^ n) s)"
  by (induction n) (simp_all add: update_active_player_score_step game_specs_defs)

lemma grants_life_iff:
  "grants_life s \<longleftrightarrow>
     points_since_last_life s + POINTS_PER_ENEMY \<ge> BONUS_LIFE_THRESHOLD \<and> lives s < MAX_LIVES"
  by (simp add: grants_life_def update_active_player_score_step game_specs_defs)

text \<open>
  While no life is granted (the counter stays below the threshold, or the lives are at
  the cap), \<open>n\<close> updates only add \<open>20 * n\<close> points to the score and to the counter.
\<close>

lemma score_updates_without_grant:
  "points_since_last_life s + 20 * int n < 2000 \<or> 5 \<le> lives s \<Longrightarrow>
   (update_active_player_score ^^ n) s =
     s\<lparr>score := score s + 20 * int n,
       points_since_last_life := points_since_last_life s + 20 * int n\<rparr>"
proof (induction n)
  case 0
  show ?case by simp
next
  case (Suc n)
  then have "(update_active_player_score ^^ n) s =
     s\<lparr>score := score s + 20 * int n,
       points_since_last_life := points_since_last_life s + 20 * int n\<rparr>"
    by auto
  then have "(update_active_player_score ^^ Suc n) s =
     update_active_player_score
       (s\<lparr>score := score s + 20 * int n,
          points_since_last_life := points_since_last_life s + 20 * int n\<rparr>)"
    by simp
  also have "\<dots> =
     s\<lparr>score := score s + 20 * int (Suc n),
       points_since_last_life := points_since_last_life s + 20 * int (Suc n)\<rparr>"
    using Suc.prems
    by (auto simp: update_active_player_score_def Let_def game_specs_defs algebra_simps)
  finally show ?case .
qed

text \<open>The fresh ship after 99, 100, 199, 200 and 299 score updates.\<close>

lemma player1_fields:
  "lives player1_ship = 3" "score player1_ship = 0" "points_since_last_life player1_ship = 0"
  by (simp_all add: player1_ship_def SpaceShip_def game_specs_defs)

lemma player1_after_99:
  "(update_active_player_score ^^ 99) player1_ship =
     player1_ship\<lparr>score := 1980, points_since_last_life := 1980\<rparr>"
  using score_updates_without_grant [of player1_ship 99]
  by (simp add: player1_fields)

lemma player1_after_100:
  "(update_active_player_score ^^ 100) player1_ship =
     player1_ship\<lparr>score := 2000, lives := 4, points_since_last_life := 0\<rparr>"
proof -
  have "(update_active_player_score ^^ Suc 99) player1_ship =
          update_active_player_score ((update_active_player_score ^^ 99) player1_ship)"
    by (simp only: funpow.simps o_apply)
  also have "\<dots> = player1_ship\<lparr>score := 2000, lives := 4, points_since_last_life := 0\<rparr>"
    by (simp add: player1_after_99 update_active_player_score_step player1_fields)
  finally show ?thesis by simp
qed

lemma player1_after_199:
  "(update_active_player_score ^^ 199) player1_ship =
     player1_ship\<lparr>score := 3980, lives := 4, points_since_last_life := 1980\<rparr>"
proof -
  have "(update_active_player_score ^^ (99 + 100)) player1_ship =
          (update_active_player_score ^^ 99) ((update_active_player_score ^^ 100) player1_ship)"
    by (simp only: funpow_add o_apply)
  also have "\<dots> = (update_active_player_score ^^ 99)
                      (player1_ship\<lparr>score := 2000, lives := 4, points_since_last_life := 0\<rparr>)"
    by (simp only: player1_after_100)
  also have "\<dots> = player1_ship\<lparr>score := 3980, lives := 4, points_since_last_life := 1980\<rparr>"
    using score_updates_without_grant
            [of "player1_ship\<lparr>score := 2000, lives := 4, points_since_last_life := 0\<rparr>" 99]
    by simp
  finally show ?thesis by simp
qed

lemma player1_after_200:
  "(update_active_player_score ^^ 200) player1_ship =
     player1_ship\<lparr>score := 4000, lives := 5, points_since_last_life := 0\<rparr>"
proof -
  have "(update_active_player_score ^^ Suc 199) player1_ship =
          update_active_player_score ((update_active_player_score ^^ 199) player1_ship)"
    by (simp only: funpow.simps o_apply)
  also have "\<dots> = player1_ship\<lparr>score := 4000, lives := 5, points_since_last_life := 0\<rparr>"
    by (simp add: player1_after_199 update_active_player_score_step)
  finally show ?thesis by simp
qed

lemma player1_after_299:
  "(update_active_player_score ^^ 299) player1_ship =
     player1_ship\<lparr>score := 5980, lives := 5, points_since_last_life := 1980\<rparr>"
proof -
  have "(update_active_player_score ^^ (99 + 200)) player1_ship =
          (update_active_player_score ^^ 99) ((update_active_player_score ^^ 200) player1_ship)"
    by (simp only: funpow_add o_apply)
  also have "\<dots> = (update_active_player_score ^^ 99)
                      (player1_ship\<lparr>score := 4000, lives := 5, points_since_last_life := 0\<rparr>)"
    by (simp only: player1_after_200)
  also have "\<dots> = player1_ship\<lparr>score := 5980, lives := 5, points_since_last_life := 1980\<rparr>"
    using score_updates_without_grant
            [of "player1_ship\<lparr>score := 4000, lives := 5, points_since_last_life := 0\<rparr>" 99]
    by simp
  finally show ?thesis by simp
qed

text \<open>Both score events act on the lives and on the counter as the plain update does.\<close>

lemma score_step_fields:
  "lives (score_step e s) = lives (update_active_player_score s)"
  "points_since_last_life (score_step e s)
     = points_since_last_life (update_active_player_score s)"
  by (cases e; simp add: boss_destroyed_def update_active_player_score_step)+

lemma score_step_invariant:
  "lives s \<le> MAX_LIVES \<Longrightarrow> 0 \<le> points_since_last_life s \<Longrightarrow>
   lives (score_step e s) \<le> MAX_LIVES \<and> 0 \<le> points_since_last_life (score_step e s)"
  by (simp add: score_step_fields update_active_player_score_step game_specs_defs)

lemma score_run_invariant:
  "lives s \<le> MAX_LIVES \<Longrightarrow> 0 \<le> points_since_last_life s \<Longrightarrow>
   lives (score_run es s) \<le> MAX_LIVES \<and> 0 \<le> points_since_last_life (score_run es s)"
proof (induction es arbitrary: s)
  case Nil
  then show ?case by simp
next
  case (Cons e es)
  from Cons.prems have "lives (score_step e s) \<le> MAX_LIVES"
    and "0 \<le> points_since_last_life (score_step e s)"
    using score_step_invariant [of s e] by simp_all
  then show ?case using Cons.IH [of "score_step e s"] by simp
qed

lemma score_run_snoc: "score_run (es @ [e]) s = score_step e (score_run es s)"
  by (induction es arbitrary: s) simp_all

lemma score_run_replicate:
  "score_run (replicate n Enemy_destroyed) s = (update_active_player_score ^^ n) s"
  by (induction n arbitrary: s) (simp_all add: funpow_swap1)

text \<open>
  Claim C5, as amended. Along every sequence of score updates of a ship that starts with
  at most 5 lives and a counter that is not negative: the lives never exceed 5 and the
  counter is never negative; the next update grants a life exactly when the counter with
  the new points reaches 2000 and the lives are below 5; it then adds exactly one life and
  leaves the counter at 0; an update that grants no life leaves the lives as they are and
  adds the points to the counter, which at the cap of 5 lives is not reset.
\<close>

theorem bonus_life_under_cap:
  "lives s \<le> MAX_LIVES \<Longrightarrow> 0 \<le> points_since_last_life s \<Longrightarrow>
     lives (score_run es s) \<le> MAX_LIVES
     \<and> 0 \<le> points_since_last_life (score_run es s)
     \<and> (grants_life (score_run es s) \<longleftrightarrow>
          points_since_last_life (score_run es s) + POINTS_PER_ENEMY \<ge> BONUS_LIFE_THRESHOLD
          \<and> lives (score_run es s) < MAX_LIVES)
     \<and> lives (score_run (es @ [e]) s)
         = (if grants_life (score_run es s) then lives (score_run es s) + 1
            else lives (score_run es s))
     \<and> points_since_last_life (score_run (es @ [e]) s)
         = (if grants_life (score_run es s) then 0
            else points_since_last_life (score_run es s) + POINTS_PER_ENEMY)"
proof -
  assume a: "lives s \<le> MAX_LIVES" "0 \<le> points_since_last_life s"
  let ?s = "score_run es s"
  have inv: "lives ?s \<le> MAX_LIVES \<and> 0 \<le> points_since_last_life ?s"
    using a by (rule score_run_invariant)
  have g: "grants_life ?s \<longleftrightarrow>
          points_since_last_life ?s + POINTS_PER_ENEMY \<ge> BONUS_LIFE_THRESHOLD
          \<and> lives ?s < MAX_LIVES"
    by (rule grants_life_iff)
  have l: "lives (score_step e ?s) = (if grants_life ?s then lives ?s + 1 else lives ?s)"
    by (simp add: g score_step_fields update_active_player_score_step game_specs_defs)
  have c: "points_since_last_life (score_step e ?s)
             = (if grants_life ?s then 0 else points_since_last_life ?s + POINTS_PER_ENEMY)"
    by (simp add: g score_step_fields update_active_player_score_step game_specs_defs)
  from inv g l c show ?thesis
    unfolding score_run_snoc by blast
qed

theorem bonus_life_under_cap_witness:
  "lives player1_ship \<le> MAX_LIVES \<and> 0 \<le> points_since_last_life player1_ship
   \<and> grants_life (score_run (replicate 99 Enemy_destroyed) player1_ship)
   \<and> lives (score_run (replicate 99 Enemy_destroyed @ [Boss_destroyed]) player1_ship) = 4
   \<and> points_since_last_life
        (score_run (replicate 99 Enemy_destroyed @ [Boss_destroyed]) player1_ship) = 0"
proof -
  have h: "lives player1_ship \<le> MAX_LIVES" "0 \<le> points_since_last_life player1_ship"
    by (simp_all add: player1_fields game_specs_defs)
  note t = bonus_life_under_cap [OF h, of "replicate 99 Enemy_destroyed" Boss_destroyed]
  have s: "score_run (replicate 99 Enemy_destroyed) player1_ship
             = player1_ship\<lparr>score := 1980, points_since_last_life := 1980\<rparr>"
    by (simp only: score_run_replicate player1_after_99)
  have g: "grants_life (score_run (replicate 99 Enemy_destroyed) player1_ship)"
    using t by (simp add: s player1_fields game_specs_defs)
  from t g have "lives (score_run (replicate 99 Enemy_destroyed @ [Boss_destroyed]) player1_ship)
                   = lives (score_run (replicate 99 Enemy_destroyed) player1_ship) + 1"
    and z: "points_since_last_life
              (score_run (replicate 99 Enemy_destroyed @ [Boss_destroyed]) player1_ship) = 0"
    by simp_all
  then have "lives (score_run (replicate 99 Enemy_destroyed @ [Boss_destroyed]) player1_ship) = 4"
    by (simp add: s player1_fields)
  with h g z show ?thesis by blast
qed

text \<open>
  The claim as stated fails at the cap: the 300th score update of a fresh ship takes the
  counter from 1980 to 2000, across the threshold, and grants no life (the ship has 5
  lives); the counter is not reset. Three crossings have granted two lives.
\<close>

theorem bonus_life_at_cap_counterexample:
  "crosses_threshold (score_run (replicate 299 Enemy_destroyed) player1_ship)
   \<and> \<not> grants_life (score_run (replicate 299 Enemy_destroyed) player1_ship)
   \<and> lives (score_run (replicate 300 Enemy_destroyed) player1_ship) = 5
   \<and> points_since_last_life (score_run (replicate 300 Enemy_destroyed) player1_ship) = 2000"
proof -
  have "(update_active_player_score ^^ Suc 299) player1_ship =
          update_active_player_score ((update_active_player_score ^^ 299) player1_ship)"
    by (simp only: funpow.simps o_apply)
  then have "(update_active_player_score ^^ 300) player1_ship =
          player1_ship\<lparr>score := 6000, lives := 5, points_since_last_life := 2000\<rparr>"
    by (simp add: player1_after_299 update_active_player_score_step)
  then show ?thesis
    unfolding score_run_replicate
    by (simp add: player1_after_299 crosses_threshold_def grants_life_iff game_specs_defs)
qed

section \<open>The swarm moves in lock step\<close>

lemma move_horizontally_eq:
  "move_horizontally dx as flag =
     (map (\<lambda>a. a\<lparr>xcor := xcor a + dx\<rparr>) as,
      flag \<or> list_ex (\<lambda>a. past_margin (xcor a + dx)) as)"
  by (induction as arbitrary: flag) (auto simp: Let_def past_margin_def)

text \<open>
  Claim C6. One call of \<open>move_aliens\<close> on a running swarm that is not empty moves every
  alien by the same vector: \<open>step_x * direction\<close> horizontally, and vertically
  \<open>- step_y\<close> when some alien's new x coordinate is past the right wall minus 40 or the
  left wall plus 40, and 0 otherwise. The direction is negated in exactly that case.
\<close>

theorem swarm_lock_step:
  "is_running s \<Longrightarrow> aliens s \<noteq> [] \<Longrightarrow>
     aliens (move_aliens s) =
       map (\<lambda>a. a\<lparr>xcor := xcor a + real_of_int (step_x s * direction s),
                  ycor := ycor a +
                    (if list_ex (\<lambda>a. past_margin (xcor a + real_of_int (step_x s * direction s)))
                          (aliens s)
                     then - real_of_int (step_y s) else 0)\<rparr>)
           (aliens s)
     \<and> direction (move_aliens s) =
         (if list_ex (\<lambda>a. past_margin (xcor a + real_of_int (step_x s * direction s))) (aliens s)
          then - direction s else direction s)
     \<and> (direction s \<noteq> 0 \<longrightarrow>
          (direction (move_aliens s) = - direction s \<longleftrightarrow>
             list_ex (\<lambda>a. past_margin (xcor a + real_of_int (step_x s * direction s))) (aliens s)))"
  by (simp add: move_aliens_def move_horizontally_eq Let_def o_def)

theorem swarm_lock_step_witness:
  "is_running edge_swarm \<and> aliens edge_swarm \<noteq> [] \<and> direction edge_swarm \<noteq> 0
   \<and> map xcor (aliens (move_aliens edge_swarm)) = [450, 390]
   \<and> map ycor (aliens (move_aliens edge_swarm)) = [402, 402]
   \<and> direction (move_aliens edge_swarm) = - 1"
proof -
  have h: "is_running edge_swarm" "aliens edge_swarm \<noteq> []"
    by (simp_all add: edge_swarm_def Aliens_init_def)
  show ?thesis
    using swarm_lock_step [OF h]
    by (simp add: edge_swarm_def Aliens_init_def past_margin_def game_specs_defs)
qed

section \<open>Shield damage\<close>

lemma resolved_hit_block_after:
  "resolved_hit (block_after n i p) = block_after (Suc n) i p"
proof -
  consider "n = 0" | "n = 1" | "n = 2" | "3 \<le> n" by linarith
  then show ?thesis
    by cases
      (simp_all add: block_after_def resolved_hit_def take_damage_def ShieldBlock_def)
qed

lemma resolved_hits_block_after:
  "(resolved_hit ^^ n) (ShieldBlock i p) = block_after n i p"
proof (induction n)
  case 0
  show ?case by (simp add: block_after_def)
next
  case (Suc n)
  have "(resolved_hit ^^ Suc n) (ShieldBlock i p)
          = resolved_hit ((resolved_hit ^^ n) (ShieldBlock i p))"
    by simp
  also have "\<dots> = resolved_hit (block_after n i p)"
    by (simp only: Suc.IH)
  finally show ?case
    by (simp only: resolved_hit_block_after)
qed

text \<open>
  The shield pass changes a block by resolved hits only: after one laser has run over the
  blocks, each block is as before or has resolved one hit.
\<close>

lemma collide_blocks_resolved_hits:
  "list_all2 (\<lambda>b b'. b' = b \<or> b' = resolved_hit b) bs (snd (collide_blocks l bs))"
proof (induction bs arbitrary: l)
  case Nil
  show ?case by simp
next
  case (Cons b bs)
  have ih: "list_all2 (\<lambda>b b'. b' = b \<or> b' = resolved_hit b) bs (snd (collide_blocks l' bs))"
    for l'
    by (rule Cons.IH)
  show ?case
    using ih [of l] ih [of "l\<lparr>active := False, shown := False\<rparr>"]
    by (auto simp: resolved_hit_def split: prod.splits)
qed

text \<open>
  Claim C7. A shield block that has resolved \<open>N\<close> hits has \<open>max 0 (3 - N)\<close> hit points; it
  is active exactly while its hit points are not 0; its colour is the function
  \<open>color_of_hp\<close> of its hit points; and while it is active one more hit takes exactly one
  hit point.
\<close>

theorem shield_block_monotonic_damage:
  "hp ((resolved_hit ^^ N) (ShieldBlock i p)) = max 0 (3 - int N)
   \<and> (block_active ((resolved_hit ^^ N) (ShieldBlock i p))
        \<longleftrightarrow> hp ((resolved_hit ^^ N) (ShieldBlock i p)) \<noteq> 0)
   \<and> color ((resolved_hit ^^ N) (ShieldBlock i p))
        = color_of_hp (hp ((resolved_hit ^^ N) (ShieldBlock i p)))
   \<and> (block_active ((resolved_hit ^^ N) (ShieldBlock i p))
        \<longrightarrow> hp (take_damage ((resolved_hit ^^ N) (ShieldBlock i p)))
              = hp ((resolved_hit ^^ N) (ShieldBlock i p)) - 1)"
proof -
  consider "N = 0" | "N = 1" | "N = 2" | "3 \<le> N" by linarith
  then show ?thesis
    unfolding resolved_hits_block_after
    by cases
      (simp_all add: block_after_def ShieldBlock_def color_of_hp_def take_damage_def)
qed

theorem shield_block_monotonic_damage_witness:
  "hp ((resolved_hit ^^ 2) (ShieldBlock 7 (0, - 231))) = 1
   \<and> block_active ((resolved_hit ^^ 2) (ShieldBlock 7 (0, - 231)))
   \<and> color ((resolved_hit ^^ 2) (ShieldBlock 7 (0, - 231))) = ''red''
   \<and> hp (take_damage ((resolved_hit ^^ 2) (ShieldBlock 7 (0, - 231)))) = 0"
  using shield_block_monotonic_damage [of 2 7 "(0, - 231)"]
  by (simp add: color_of_hp_def)

section \<open>Stale timers\<close>

lemma ids_start_movement_loop:
  "movement_timer_id (start_movement_loop s) = movement_timer_id s"
  "shooting_timer_id (start_movement_loop s) = shooting_timer_id s"
  by (simp_all add: start_movement_loop_def move_aliens_def Let_def split: prod.splits)

lemma ids_alien_shoot:
  "movement_timer_id (alien_shoot d s) = movement_timer_id s"
  "shooting_timer_id (alien_shoot d s) = shooting_timer_id s"
  by (simp_all add: alien_shoot_def Let_def)

lemma ids_start_after_cancel:
  "movement_timer_id (start d (cancel_timers s)) = movement_timer_id s + 2"
  "shooting_timer_id (start d (cancel_timers s)) = shooting_timer_id s + 1"
  by (simp_all add: start_def ids_alien_shoot ids_start_movement_loop cancel_timers_def)

text \<open>
  Claim C8. After \<open>cancel_timers\<close>, firing a movement or a shooting callback, whatever id
  it captured and whatever the random draws, leaves the whole swarm state as it is:
  aliens, direction, enemy lasers and armed timers. A callback armed before the
  cancellation (its id is at most the id at that time) stays without effect when the
  swarm has been started again.
\<close>

theorem stale_timer_idempotence:
  "fire_callback cb d (cancel_timers s) = cancel_timers s
   \<and> (c \<le> movement_timer_id s \<longrightarrow>
        fire_callback (Movement_callback c) d (start d0 (cancel_timers s))
          = start d0 (cancel_timers s))
   \<and> (c \<le> shooting_timer_id s \<longrightarrow>
        fire_callback (Shooting_callback c) d (start d0 (cancel_timers s))
          = start d0 (cancel_timers s))"
proof -
  have "fire_callback cb d (cancel_timers s) = cancel_timers s"
    by (cases cb) (simp_all add: cancel_timers_def)
  then show ?thesis
    by (simp add: ids_start_after_cancel)
qed

theorem stale_timer_idempotence_witness:
  "fire_callback (Movement_callback 1) some_draws (cancel_timers edge_swarm)
     = cancel_timers edge_swarm
   \<and> (1::int) \<le> movement_timer_id edge_swarm
   \<and> fire_callback (Movement_callback 1) some_draws (start some_draws (cancel_timers edge_swarm))
       = start some_draws (cancel_timers edge_swarm)
   \<and> (0::int) \<le> shooting_timer_id edge_swarm
   \<and> fire_callback (Shooting_callback 0) some_draws (start some_draws (cancel_timers edge_swarm))
       = start some_draws (cancel_timers edge_swarm)"
proof -
  have h: "(1::int) \<le> movement_timer_id edge_swarm" "(0::int) \<le> shooting_timer_id edge_swarm"
    by (simp_all add: edge_swarm_def Aliens_init_def)
  from stale_timer_idempotence [of "Movement_callback 1" some_draws edge_swarm 1 some_draws] h
  have a: "fire_callback (Movement_callback 1) some_draws (cancel_timers edge_swarm)
             = cancel_timers edge_swarm"
    and b: "fire_callback (Movement_callback 1) some_draws (start some_draws (cancel_timers edge_swarm))
             = start some_draws (cancel_timers edge_swarm)"
    by blast+
  from stale_timer_idempotence [of "Movement_callback 1" some_draws edge_swarm 0 some_draws] h
  have c: "fire_callback (Shooting_callback 0) some_draws (start some_draws (cancel_timers edge_swarm))
             = start some_draws (cancel_timers edge_swarm)"
    by blast
  from a b c h show ?thesis by blast
qed

text \<open>
  A callback whose id is current does work: on the running swarm the movement callback
  moves the aliens and arms itself again.
\<close>

lemma movement_callback_live:
  "map xcor (aliens (fire_callback (Movement_callback 1) some_draws edge_swarm)) = [450, 390]
   \<and> armed (fire_callback (Movement_callback 1) some_draws edge_swarm)
       = [(Movement_callback 1, 80), (Shooting_callback 0, 300), (Movement_callback 1, 80)]"
  by (simp add: edge_swarm_def Aliens_init_def start_movement_loop_def move_aliens_def
        move_horizontally_eq past_margin_def game_specs_defs Let_def py_int_def)

section \<open>The shot cooldown\<close>

lemma laser_move_active: "active (laser_move l) \<Longrightarrow> active l"
  by (auto simp: laser_move_def Let_def split: if_splits)

lemma count_active_update:
  "length (filter active (lasers (update_lasers s))) \<le> length (filter active (lasers s))"
proof -
  have "length (filter active (map laser_move ls)) \<le> length (filter active ls)" for ls
    by (induction ls) (auto dest: laser_move_active)
  then show ?thesis by (simp add: update_lasers_def)
qed

lemma count_active_updates:
  "length (filter active (lasers ((update_lasers ^^ n) s))) \<le> length (filter active (lasers s))"
proof (induction n)
  case 0
  show ?case by simp
next
  case (Suc n)
  have "length (filter active (lasers ((update_lasers ^^ Suc n) s)))
        \<le> length (filter active (lasers ((update_lasers ^^ n) s)))"
    using count_active_update [of "(update_lasers ^^ n) s"] by simp
  with Suc show ?case by linarith
qed

lemma updates_keep_times:
  "last_shot_time ((update_lasers ^^ n) s) = last_shot_time s
   \<and> shot_cooldown ((update_lasers ^^ n) s) = shot_cooldown s"
  by (induction n) (simp_all add: update_lasers_def)

lemma fire_succeeds_iff:
  "length (lasers (fire t i s)) = Suc (length (lasers s))
   \<longleftrightarrow> (\<not> list_ex active (lasers s) \<or> t - last_shot_time s \<ge> shot_cooldown s)"
  by (simp add: fire_def)

text \<open>
  Claim C9, as amended. A ship with a cooldown of 1.5 seconds fires at time \<open>t\<close> and the
  call creates a laser; the game then runs \<open>n\<close> ticks of \<open>update_lasers\<close> and that laser
  is still active. A second call of \<open>fire\<close> at \<open>t + 0.1\<close> changes nothing: it creates no
  laser. When no laser was active before the first call, exactly one laser is active
  afterwards.
\<close>

theorem fire_cooldown_one_laser:
  "shot_cooldown s = 3 / 2 \<Longrightarrow>
   length (lasers (fire t i s)) = Suc (length (lasers s)) \<Longrightarrow>
   list_ex (\<lambda>l. oid l = i \<and> active l) (lasers ((update_lasers ^^ n) (fire t i s))) \<Longrightarrow>
     fire (t + 1 / 10) j ((update_lasers ^^ n) (fire t i s)) = (update_lasers ^^ n) (fire t i s)
     \<and> (\<not> list_ex active (lasers s) \<longrightarrow>
          length (filter active
                    (lasers (fire (t + 1 / 10) j ((update_lasers ^^ n) (fire t i s))))) = 1)"
proof -
  assume cd: "shot_cooldown s = 3 / 2"
    and ok: "length (lasers (fire t i s)) = Suc (length (lasers s))"
    and still: "list_ex (\<lambda>l. oid l = i \<and> active l) (lasers ((update_lasers ^^ n) (fire t i s)))"
  let ?s1 = "fire t i s"
  let ?s2 = "(update_lasers ^^ n) ?s1"
  from ok have fired: "\<not> list_ex active (lasers s) \<or> t - last_shot_time s \<ge> shot_cooldown s"
    by (simp add: fire_succeeds_iff)
  then have s1: "last_shot_time ?s1 = t" "shot_cooldown ?s1 = 3 / 2"
    "lasers ?s1 = lasers s @ [Laser i (xcor s, ycor s + ship_height s / 2 + 20)]"
    using cd by (auto simp: fire_def)
  have s2: "last_shot_time ?s2 = t" "shot_cooldown ?s2 = 3 / 2"
    using updates_keep_times [of n ?s1] s1 by simp_all
  from still have act: "list_ex active (lasers ?s2)"
    by (auto simp: list_ex_iff)
  have no_fire: "fire (t + 1 / 10) j ?s2 = ?s2"
    using act s2 by (simp add: fire_def)
  have "length (filter active (lasers ?s2)) = 1" if "\<not> list_ex active (lasers s)"
  proof -
    from that have "filter active (lasers s) = []"
      by (auto simp: list_ex_iff filter_empty_conv)
    then have "length (filter active (lasers ?s1)) = 1"
      by (simp add: s1 Laser_def)
    then have "length (filter active (lasers ?s2)) \<le> 1"
      using count_active_updates [of n ?s1] by simp
    moreover from act have "filter active (lasers ?s2) \<noteq> []"
      by (auto simp: list_ex_iff filter_empty_conv)
    then have "length (filter active (lasers ?s2)) \<ge> 1"
      by (cases "filter active (lasers ?s2)") simp_all
    ultimately show ?thesis by linarith
  qed
  with no_fire show ?thesis by simp
qed

lemma player1_fires:
  "(update_lasers ^^ 5) (fire 100 7 player1_ship) =
     player1_ship\<lparr>last_shot_time := 100, lasers := [Laser 7 (0, - 28072 / 100)]\<rparr>"
  by (simp add: eval_nat_numeral update_lasers_def fire_def laser_move_def Laser_def
        player1_ship_def SpaceShip_def game_specs_defs Let_def)

theorem fire_cooldown_one_laser_witness:
  "shot_cooldown player1_ship = 3 / 2
   \<and> length (lasers (fire 100 7 player1_ship)) = Suc (length (lasers player1_ship))
   \<and> list_ex (\<lambda>l. oid l = 7 \<and> active l) (lasers ((update_lasers ^^ 5) (fire 100 7 player1_ship)))
   \<and> \<not> list_ex active (lasers player1_ship)
   \<and> lasers (fire (100 + 1 / 10) 8 ((update_lasers ^^ 5) (fire 100 7 player1_ship)))
       = [Laser 7 (0, - 28072 / 100)]
   \<and> length (filter active
       (lasers (fire (100 + 1 / 10) 8 ((update_lasers ^^ 5) (fire 100 7 player1_ship))))) = 1"
proof -
  have h1: "shot_cooldown player1_ship = 3 / 2"
    by (simp add: player1_ship_def SpaceShip_def)
  have h2: "length (lasers (fire 100 7 player1_ship)) = Suc (length (lasers player1_ship))"
    by (simp add: fire_def player1_ship_def SpaceShip_def)
  have h3: "list_ex (\<lambda>l. oid l = 7 \<and> active l)
              (lasers ((update_lasers ^^ 5) (fire 100 7 player1_ship)))"
    by (simp add: player1_fires Laser_def)
  have h4: "\<not> list_ex active (lasers player1_ship)"
    by (simp add: player1_ship_def SpaceShip_def)
  from fire_cooldown_one_laser [OF h1 h2 h3, of 8] h4
  have a: "fire (100 + 1 / 10) 8 ((update_lasers ^^ 5) (fire 100 7 player1_ship))
             = (update_lasers ^^ 5) (fire 100 7 player1_ship)"
    and b: "length (filter active
              (lasers (fire (100 + 1 / 10) 8 ((update_lasers ^^ 5) (fire 100 7 player1_ship))))) = 1"
    by blast+
  from a have c: "lasers (fire (100 + 1 / 10) 8 ((update_lasers ^^ 5) (fire 100 7 player1_ship)))
                    = [Laser 7 (0, - 28072 / 100)]"
    by (simp add: player1_fires)
  from h1 h2 h3 h4 b c show ?thesis by blast
qed

text \<open>
  While every laser stays active and below the top wall, \<open>n\<close> ticks only move the lasers
  up by \<open>10 * n\<close>.
\<close>

lemma update_lasers_in_flight:
  "list_all (\<lambda>l. active l \<and> ycor l + 10 * real n \<le> WALLS_top) (lasers s) \<Longrightarrow>
   (update_lasers ^^ n) s =
     s\<lparr>lasers := map (\<lambda>l. l\<lparr>ycor := ycor l + 10 * real n\<rparr>) (lasers s)\<rparr>"
proof (induction n)
  case 0
  show ?case by (simp add: map_idI)
next
  case (Suc n)
  from Suc.prems have p: "list_all (\<lambda>l. active l \<and> ycor l + 10 * real n \<le> WALLS_top) (lasers s)"
    by (auto simp: list_all_iff)
  have m: "filter active (map laser_move (map (\<lambda>l. l\<lparr>ycor := ycor l + 10 * real n\<rparr>) ls))
             = map (\<lambda>l. l\<lparr>ycor := ycor l + 10 * real (Suc n)\<rparr>) ls"
    if "list_all (\<lambda>l. active l \<and> ycor l + 10 * real (Suc n) \<le> WALLS_top) ls" for ls
    using that
    by (induction ls) (auto simp: laser_move_def Let_def LASER_VELOCITY_def algebra_simps)
  have "(update_lasers ^^ Suc n) s = update_lasers ((update_lasers ^^ n) s)"
    by simp
  also have "\<dots> = update_lasers (s\<lparr>lasers := map (\<lambda>l. l\<lparr>ycor := ycor l + 10 * real n\<rparr>) (lasers s)\<rparr>)"
    by (simp only: Suc.IH [OF p])
  also have "\<dots> = s\<lparr>lasers := map (\<lambda>l. l\<lparr>ycor := ycor l + 10 * real (Suc n)\<rparr>) (lasers s)\<rparr>"
    using m [OF Suc.prems] by (simp add: update_lasers_def)
  finally show ?case .
qed

lemma ship_with_laser_in_flight_eq:
  "ship_with_laser_in_flight =
     player1_ship\<lparr>last_shot_time := 197 / 2, lasers := [Laser 7 (0, 41928 / 100)]\<rparr>"
proof -
  have f: "fire (197 / 2) 7 player1_ship =
             player1_ship\<lparr>last_shot_time := 197 / 2, lasers := [Laser 7 (0, - 33072 / 100)]\<rparr>"
    by (simp add: fire_def player1_ship_def SpaceShip_def game_specs_defs)
  show ?thesis
    unfolding ship_with_laser_in_flight_def f
    using update_lasers_in_flight
            [of 75 "player1_ship\<lparr>last_shot_time := 197 / 2,
                                   lasers := [Laser 7 (0, - 33072 / 100)]\<rparr>"]
    by (simp add: Laser_def game_specs_defs)
qed

lemma second_laser_fired:
  "(update_lasers ^^ 5) (fire 100 8 ship_with_laser_in_flight) =
     player1_ship\<lparr>last_shot_time := 100,
                   lasers := [Laser 7 (0, 46928 / 100), Laser 8 (0, - 28072 / 100)]\<rparr>"
proof -
  have f: "fire 100 8 ship_with_laser_in_flight =
             player1_ship\<lparr>last_shot_time := 100,
                           lasers := [Laser 7 (0, 41928 / 100), Laser 8 (0, - 33072 / 100)]\<rparr>"
    unfolding ship_with_laser_in_flight_eq
    by (simp add: fire_def player1_ship_def SpaceShip_def game_specs_defs)
  show ?thesis
    unfolding f
    using update_lasers_in_flight
            [of 5 "player1_ship\<lparr>last_shot_time := 100,
                                  lasers := [Laser 7 (0, 41928 / 100), Laser 8 (0, - 33072 / 100)]\<rparr>"]
    by (simp add: Laser_def game_specs_defs)
qed

text \<open>
  The claim as stated fails when an older laser is still in flight. The ship fired at
  98.5 and that laser is still active; the cooldown has passed at time 100, so \<open>fire\<close>
  succeeds and creates a second laser; five ticks later that laser is active, and the
  call at 100.1 creates none. Two lasers are active after both calls, not one.
\<close>

theorem fire_cooldown_two_lasers_counterexample:
  "shot_cooldown ship_with_laser_in_flight = 3 / 2
   \<and> length (lasers (fire 100 8 ship_with_laser_in_flight))
       = Suc (length (lasers ship_with_laser_in_flight))
   \<and> list_ex (\<lambda>l. oid l = 8 \<and> active l)
        (lasers ((update_lasers ^^ 5) (fire 100 8 ship_with_laser_in_flight)))
   \<and> fire (100 + 1 / 10) 9 ((update_lasers ^^ 5) (fire 100 8 ship_with_laser_in_flight))
       = (update_lasers ^^ 5) (fire 100 8 ship_with_laser_in_flight)
   \<and> length (filter active
       (lasers (fire (100 + 1 / 10) 9
                  ((update_lasers ^^ 5) (fire 100 8 ship_with_laser_in_flight))))) = 2"
proof -
  have a: "shot_cooldown ship_with_laser_in_flight = 3 / 2"
    by (simp add: ship_with_laser_in_flight_eq player1_ship_def SpaceShip_def)
  have b: "length (lasers (fire 100 8 ship_with_laser_in_flight))
             = Suc (length (lasers ship_with_laser_in_flight))"
    by (simp add: ship_with_laser_in_flight_eq fire_def player1_ship_def SpaceShip_def)
  have c: "fire (100 + 1 / 10) 9 ((update_lasers ^^ 5) (fire 100 8 ship_with_laser_in_flight))
             = (update_lasers ^^ 5) (fire 100 8 ship_with_laser_in_flight)"
    unfolding second_laser_fired
    by (simp add: fire_def Laser_def player1_ship_def SpaceShip_def)
  show ?thesis
    unfolding c using a b
    by (simp add: second_laser_fired Laser_def)
qed

section \<open>The ship stays between the walls\<close>

lemma go_right_within: "within_walls s \<Longrightarrow> within_walls (go_right s)"
  by (simp add: within_walls_def go_right_def Let_def)

lemma go_left_within: "within_walls s \<Longrightarrow> within_walls (go_left s)"
  by (simp add: within_walls_def go_left_def Let_def)

lemma ship_step_within: "within_walls s \<Longrightarrow> within_walls (ship_step m s)"
  by (cases m) (simp_all add: go_right_within go_left_within)

lemma ship_run_within: "within_walls s \<Longrightarrow> within_walls (ship_run ms s)"
  by (induction ms arbitrary: s) (simp_all add: ship_step_within)

text \<open>
  Claim C10. A ship that starts between the left wall plus half its width and the right
  wall minus half its width is there after every call of a sequence of \<open>go_right\<close> and
  \<open>go_left\<close> calls; a call moves the ship by 20 units when the new position is in that
  interval on the side it moves to, and leaves the ship where it is otherwise.
\<close>

theorem ship_stays_within_walls:
  "within_walls s \<Longrightarrow>
     (\<forall>n \<le> length ms. within_walls (ship_run (take n ms) s))
     \<and> go_right s =
         (if xcor s + 20 \<le> WALLS_right - ship_width s / 2 then s\<lparr>xcor := xcor s + 20\<rparr> else s)
     \<and> go_left s =
         (if xcor s - 20 \<ge> WALLS_left + ship_width s / 2 then s\<lparr>xcor := xcor s - 20\<rparr> else s)"
  by (simp add: ship_run_within go_right_def go_left_def Let_def)

theorem ship_stays_within_walls_witness:
  "within_walls player1_ship
   \<and> within_walls (ship_run [Go_left, Go_right, Go_right] player1_ship)
   \<and> xcor (go_right (player1_ship\<lparr>xcor := 420\<rparr>)) = 420
   \<and> xcor (go_right (player1_ship\<lparr>xcor := 400\<rparr>)) = 420"
proof -
  have h: "within_walls player1_ship"
    by (simp add: within_walls_def player1_ship_def SpaceShip_def game_specs_defs)
  have h': "within_walls (player1_ship\<lparr>xcor := 420\<rparr>)" "within_walls (player1_ship\<lparr>xcor := 400\<rparr>)"
    by (simp_all add: within_walls_def player1_ship_def SpaceShip_def game_specs_defs)
  from ship_stays_within_walls [OF h, of "[Go_left, Go_right, Go_right]"]
  have "\<forall>n \<le> 3. within_walls (ship_run (take n [Go_left, Go_right, Go_right]) player1_ship)"
    by simp
  then have "within_walls (ship_run (take 3 [Go_left, Go_right, Go_right]) player1_ship)"
    by blast
  moreover have "xcor (go_right (player1_ship\<lparr>xcor := 420\<rparr>)) = 420"
    using ship_stays_within_walls [OF h'(1), of "[]"]
    by (simp add: player1_ship_def SpaceShip_def game_specs_defs)
  moreover have "xcor (go_right (player1_ship\<lparr>xcor := 400\<rparr>)) = 420"
    using ship_stays_within_walls [OF h'(2), of "[]"]
    by (simp add: player1_ship_def SpaceShip_def game_specs_defs)
  ultimately show ?thesis using h by simp
qed

end
